theory Spec2Isabelle
  imports Complex_Main "HOL-Library.Sublist"
begin

section \<open>The password generator: a shallow embedding of password\_generator.py\<close>

text \<open>
  The program is a terminal application: every function reads lines from the terminal,
  prints lines, and some of them call one of two HTTP services or the random number
  generator. The embedding threads a \<open>world\<close> through every function. An exception of the
  source (\<open>SystemExit\<close> raised by \<open>exit_program\<close>, \<open>EOFError\<close> raised by \<open>input\<close> at the
  end of the input, \<open>ValueError\<close> raised by \<open>int\<close> on a string of more than 4300 digits,
  \<open>IndexError\<close> raised inside \<open>random.choices\<close>, \<open>AttributeError\<close> raised by \<open>.get\<close> on a
  JSON value that is no object) is the \<open>Inl\<close> branch of the result.

  Strings are lists of \<open>char\<close>; a \<open>char\<close> stands for the code point of the same number, so
  the model covers the code points below 256.
\<close>

subsection \<open>Strings: the methods of \<open>str\<close> the program uses\<close>

text \<open>\<open>str.isspace\<close> on one character, for the code points below 256.\<close>

definition isspace :: "char \<Rightarrow> bool" where
  "isspace c =
     (let n = (of_char c :: nat)
      in (9 \<le> n \<and> n \<le> 13) \<or> (28 \<le> n \<and> n \<le> 32) \<or> n = 133 \<or> n = 160)"

text \<open>\<open>s.strip()\<close>: leading and trailing whitespace removed.\<close>

definition strip :: "string \<Rightarrow> string" where
  "strip s = rev (dropWhile isspace (rev (dropWhile isspace s)))"

text \<open>\<open>s.lower()\<close>, for the code points below 256: A-Z and the capital letters of Latin-1.\<close>

definition lower_char :: "char \<Rightarrow> char" where
  "lower_char c =
     (let n = (of_char c :: nat)
      in if (65 \<le> n \<and> n \<le> 90) \<or> (192 \<le> n \<and> n \<le> 222 \<and> n \<noteq> 215)
         then char_of (n + 32) else c)"

definition lower :: "string \<Rightarrow> string" where
  "lower s = map lower_char s"

text \<open>The test \<open>c not in "0123456789"\<close> of \<open>do_set_length\<close>, negated.\<close>

definition is_digit :: "char \<Rightarrow> bool" where
  "is_digit c = (c \<in> set ''0123456789'')"

text \<open>
  The number a string of decimal digits denotes. Python's integers are unbounded.
\<close>

definition digit_value :: "char \<Rightarrow> int" where
  "digit_value c = int (of_char c) - 48"

definition int_of_str :: "string \<Rightarrow> int" where
  "int_of_str raw = foldl (\<lambda>n c. n * 10 + digit_value c) 0 raw"

text \<open>
  The limit of CPython (3.11 and later, and the patched earlier versions) on the number of
  digits \<open>int\<close> converts: \<open>sys.int_info.default_max_str_digits\<close>.
\<close>

definition max_str_digits :: nat where
  "max_str_digits = 4300"

text \<open>\<open>str(n)\<close> on an integer.\<close>

fun str_nat :: "nat \<Rightarrow> string" where
  "str_nat n =
     (if n < 10 then [char_of (48 + n)]
      else str_nat (n div 10) @ [char_of (48 + n mod 10)])"

definition str :: "int \<Rightarrow> string" where
  "str n = (if n < 0 then ''-'' @ str_nat (nat (- n)) else str_nat (nat n))"

subsection \<open>The world: terminal, services, random number generator\<close>

datatype exn = SystemExit int | EOFError | ValueError | IndexError | AttributeError

text \<open>
  A JSON value, as far as the program looks at it: a string, \<open>null\<close> (Python's \<open>None\<close>),
  or anything else.
\<close>

datatype json = JString string | JNull | JOther

text \<open>
  What a POST request gives: the request raises (service not running, timeout), or the
  body is not JSON, or it is a JSON object (a dict), or it is the JSON \<open>null\<close> (for which
  \<open>resp.json()\<close> is \<open>None\<close>), or it is JSON of another kind (a list, a string, a number).
\<close>

datatype response =
  Unreachable | NotJson | JsonObject "string \<rightharpoonup> json" | JsonNull | JsonNonObject

record password_record =
  password :: string
  length' :: int
  lowercase :: bool
  uppercase :: bool
  numbers :: bool
  symbols :: bool

text \<open>The requests the program sends: the payload of each POST.\<close>

datatype request =
  LoginRequest string string
| ExportRequest string "password_record list"

text \<open>
  What the terminal shows: a line written by \<open>print\<close> with one argument, a line written
  by \<open>print\<close> with a label and a JSON value, the prompt of an \<open>input\<close>.
\<close>

datatype display = Line string | LineVal string json | Prompt string

text \<open>
  \<open>stdin\<close> holds the lines the user will still type, \<open>stdout\<close> what has been shown, oldest
  first. \<open>requests\<close> logs every POST sent, oldest first; \<open>service\<close> answers a request given
  the log of all requests up to and including it. \<open>entropy\<close> is the stream of 53-bit
  integers behind \<open>random.random()\<close>, \<open>draws\<close> the number of them used so far.
\<close>

record world =
  stdin :: "string list"
  stdout :: "display list"
  requests :: "request list"
  service :: "request list \<Rightarrow> response"
  entropy :: "nat \<Rightarrow> nat"
  draws :: nat

type_synonym 'a io = "world \<Rightarrow> (exn + 'a) \<times> world"

text \<open>Sequencing: an exception of the first action skips the second.\<close>

definition and_then :: "'a io \<Rightarrow> ('a \<Rightarrow> 'b io) \<Rightarrow> 'b io" where
  "and_then m f w = (case m w of (Inl e, w') \<Rightarrow> (Inl e, w') | (Inr x, w') \<Rightarrow> f x w')"

definition return :: "'a \<Rightarrow> 'a io" where
  "return x w = (Inr x, w)"

definition raise :: "exn \<Rightarrow> 'a io" where
  "raise e w = (Inl e, w)"

text \<open>\<open>print(s)\<close>, and a run of consecutive \<open>print\<close> statements.\<close>

definition print :: "string \<Rightarrow> unit io" where
  "print s w = (Inr (), w\<lparr>stdout := stdout w @ [Line s]\<rparr>)"

definition print_val :: "string \<Rightarrow> json \<Rightarrow> unit io" where
  "print_val s v w = (Inr (), w\<lparr>stdout := stdout w @ [LineVal s v]\<rparr>)"

definition prints :: "string list \<Rightarrow> unit io" where
  "prints ss w = (Inr (), w\<lparr>stdout := stdout w @ map Line ss\<rparr>)"

text \<open>\<open>input(prompt)\<close>: shows the prompt, reads one line; \<open>EOFError\<close> when there is none.\<close>

definition input :: "string \<Rightarrow> string io" where
  "input prompt w =
     (case stdin w of
        [] \<Rightarrow> (Inl EOFError, w\<lparr>stdout := stdout w @ [Prompt prompt]\<rparr>)
      | l # ls \<Rightarrow> (Inr l, w\<lparr>stdin := ls, stdout := stdout w @ [Prompt prompt]\<rparr>))"

text \<open>\<open>requests.post(url, json=payload)\<close> followed by \<open>resp.json()\<close>.\<close>

definition post :: "request \<Rightarrow> world \<Rightarrow> response \<times> world" where
  "post r w = (let log = requests w @ [r] in (service w log, w\<lparr>requests := log\<rparr>))"

text \<open>
  \<open>random.random()\<close>: CPython returns the double \<open>k / 2 ^ 53\<close> for a 53-bit integer \<open>k\<close>. The
  model returns \<open>k\<close>, the next number of the stream reduced to 53 bits; it stands for that
  double, which is exact.
\<close>

definition random :: "nat io" where
  "random w = (Inr (entropy w (draws w) mod 2 ^ 53), w\<lparr>draws := Suc (draws w)\<rparr>)"

text \<open>
  Doubles, as far as \<open>random.choices\<close> needs them. \<open>bit_length\<close> is \<open>int.bit_length\<close>.
  \<open>nearest_double a\<close> is the natural number \<open>a\<close> rounded to 53 significant bits, to nearest
  and ties to even, as IEEE 754 rounds: it is \<open>float(a)\<close>, and \<open>nearest_double a / 2 ^ 53\<close> is
  the double nearest to \<open>a / 2 ^ 53\<close>. \<open>floor_of_product k n\<close> is \<open>floor(r * float(n))\<close> for
  the double \<open>r = k / 2 ^ 53\<close>: the exact product is \<open>k * float(n) / 2 ^ 53\<close>, the
  multiplication rounds it to the nearest double, and \<open>floor\<close> of a double is exact.
  (Lengths of lists are below \<open>2 ^ 63\<close>, so nothing overflows or underflows.)
\<close>

fun bit_length :: "nat \<Rightarrow> nat" where
  "bit_length a = (if a = 0 then 0 else Suc (bit_length (a div 2)))"

declare bit_length.simps [simp del]

definition nearest_double :: "nat \<Rightarrow> nat" where
  "nearest_double a =
     (if a < 2 ^ 53 then a
      else
        let shift = bit_length a - 53;
            q = a div 2 ^ shift;
            r = a mod 2 ^ shift;
            half = 2 ^ (shift - 1)
        in (if r > half \<or> (r = half \<and> odd q) then q + 1 else q) * 2 ^ shift)"

definition floor_of_product :: "nat \<Rightarrow> nat \<Rightarrow> nat" where
  "floor_of_product k n = nearest_double (k * nearest_double n) div 2 ^ 53"

subsection \<open>exit\_program\<close>

definition exit_program :: "'a io" where
  "exit_program = raise (SystemExit 0)"

subsection \<open>do\_set\_length\<close>

text \<open>
  \<open>n = int(raw)\<close> raises \<open>ValueError\<close> when \<open>raw\<close>, here a string of digits, has more than
  \<open>max_str_digits\<close> characters: the branch before \<open>let n = int_of_str raw\<close>.
\<close>

definition do_set_length :: "int option \<Rightarrow> int option io" where
  "do_set_length current_length =
     (let min_length = 5; max_length = 100; weak_threshold = 10;
          current_display =
            (case current_length of None \<Rightarrow> ''[not set]'' | Some n \<Rightarrow> str n)
      in
      and_then (prints ['''', ''Set Length'',
          ''Note: Longer passwords are stronger, but can be harder to type.'',
          ''Set password length (5-100)'',
          ''Current length: '' @ current_display]) (\<lambda>_.
      and_then (input ''\<newline>Enter length: '') (\<lambda>line.
      let raw = strip line in
      if raw = '''' then
        and_then (input ''\<newline>Press Enter to return to settings...'') (\<lambda>_.
        return current_length)
      else if \<not> list_all is_digit raw then
        and_then (input ''\<newline>Press Enter to return to settings...'') (\<lambda>_.
        return current_length)
      else if length raw > max_str_digits then raise ValueError
      else
        let n = int_of_str raw in
        if n < min_length \<or> n > max_length then
          and_then (input ''\<newline>Press Enter to return to settings...'') (\<lambda>_.
          return current_length)
        else if n < weak_threshold then
          and_then (prints ['''',
            ''\<newline>Note: Length '' @ str n @ '' is a relatively weak password. Recommendation: Use 10+ characters unless a site requires a shorter password.'']) (\<lambda>_.
          and_then (input (''Continue with '' @ str n @ ''? (y/n): '')) (\<lambda>answer.
          let confirm = lower (strip answer) in
          if confirm \<noteq> ''y'' then
            and_then (input ''\<newline>Press Enter to return to settings...'') (\<lambda>_.
            return current_length)
          else return (Some n)))
        else return (Some n))))"

text \<open>
  For the recursive functions below: the second action of \<open>and_then\<close> runs only on what the
  first one returned.
\<close>

lemma and_then_cong [fundef_cong]:
  assumes "w = w'" and "m w' = m' w'"
    and "\<And>x w1. m' w' = (Inr x, w1) \<Longrightarrow> f x w1 = f' x w1"
  shows "and_then m f w = and_then m' f' w'"
  using assms by (auto simp: and_then_def split: prod.splits sum.splits)

text \<open>Only \<open>input\<close> consumes the lines of the terminal, one at a time.\<close>

lemma prints_stdin: "prints ss w = (r, w') \<Longrightarrow> stdin w' = stdin w"
  by (auto simp: prints_def)

lemma print_stdin: "print s w = (r, w') \<Longrightarrow> stdin w' = stdin w"
  by (auto simp: print_def)

lemma print_val_stdin: "print_val s v w = (r, w') \<Longrightarrow> stdin w' = stdin w"
  by (auto simp: print_val_def)

lemma input_stdin: "input p w = (Inr l, w') \<Longrightarrow> stdin w = l # stdin w'"
  by (auto simp: input_def split: list.splits)

lemma input_stdin_le: "input p w = (r, w') \<Longrightarrow> length (stdin w') \<le> length (stdin w)"
  by (auto simp: input_def split: list.splits)

lemma post_stdin: "post r w = (a, w') \<Longrightarrow> stdin w' = stdin w"
  by (auto simp: post_def Let_def)

lemma random_stdin: "random w = (r, w') \<Longrightarrow> stdin w' = stdin w"
  by (auto simp: random_def)

lemma and_then_stdin_le:
  assumes "and_then m f w = (r, w')"
    and "\<And>r1 w1. m w = (r1, w1) \<Longrightarrow> length (stdin w1) \<le> length (stdin w)"
    and "\<And>x w1 r2 w2. m w = (Inr x, w1) \<Longrightarrow> f x w1 = (r2, w2)
           \<Longrightarrow> length (stdin w2) \<le> length (stdin w1)"
  shows "length (stdin w') \<le> length (stdin w)"
proof (cases "m w")
  case (Pair r1 w1)
  show ?thesis
  proof (cases r1)
    case (Inl e)
    with Pair assms(1) have "w' = w1" by (simp add: and_then_def)
    with Pair assms(2) show ?thesis by simp
  next
    case (Inr x)
    with Pair assms(1) have "f x w1 = (r, w')" by (simp add: and_then_def)
    with Pair Inr assms(2) [of r1 w1] assms(3) [of x w1 r w'] show ?thesis by simp
  qed
qed

lemma input_stdin_less:
  "input p w = (Inr l, w') \<Longrightarrow> length (stdin w') < length (stdin w)"
  by (auto simp: input_def split: list.splits)

lemma and_then_elim:
  assumes "and_then m f w = (r, w')"
  obtains (raised) e where "m w = (Inl e, w')" and "r = Inl e"
  | (returned) x w1 where "m w = (Inr x, w1)" and "f x w1 = (r, w')"
  using assms by (auto simp: and_then_def split: prod.splits sum.splits)

subsection \<open>attempt\_login and run\_login\_screen\<close>

text \<open>
  \<open>attempt_login\<close> returns the \<open>status\<close> field of the answer, whatever JSON value it is;
  \<open>data.get\<close> raises \<open>AttributeError\<close> when the answer is JSON but no object, \<open>null\<close>
  included.
\<close>

definition attempt_login :: "string \<Rightarrow> string \<Rightarrow> json io" where
  "attempt_login username password' w =
     (case post (LoginRequest username password') w of
        (Unreachable, w') \<Rightarrow> (Inr (JString ''service_error''), w')
      | (NotJson, w') \<Rightarrow> (Inr (JString ''service_error''), w')
      | (JsonObject data, w') \<Rightarrow>
          (Inr (case data ''status'' of None \<Rightarrow> JString ''service_error'' | Some v \<Rightarrow> v), w')
      | (JsonNull, w') \<Rightarrow> (Inl AttributeError, w')
      | (JsonNonObject, w') \<Rightarrow> (Inl AttributeError, w'))"

lemma attempt_login_stdin: "attempt_login u p w = (r, w') \<Longrightarrow> stdin w' = stdin w"
  by (auto simp: attempt_login_def split: prod.splits response.splits dest: post_stdin)

function run_login_screen :: "bool io" where
  "run_login_screen w =
     and_then (prints ['''', ''Login Required'',
         ''Enter your username and password to continue.'',
         ''Press Enter on username to quit.\<newline>'']) (\<lambda>_.
     and_then (input ''Username: '') (\<lambda>line w.
     let username = strip line in
     if username = '''' then return False w
     else
       and_then (input ''Password: '') (\<lambda>line' w.
       let password' = strip line' in
       and_then (attempt_login username password') (\<lambda>status w.
       if status = JString ''ok'' then
         and_then (print ''\<newline>Login successful.\<newline>'') (\<lambda>_. return True) w
       else if status = JString ''locked'' then
         and_then (print ''\<newline>Account locked. Wait a bit and try again.\<newline>'')
           (\<lambda>_ w. run_login_screen w) w
       else if status = JString ''invalid_credentials'' then
         and_then (print ''\<newline>Invalid username or password.\<newline>'')
           (\<lambda>_ w. run_login_screen w) w
       else if status = JString ''invalid_format'' then
         and_then (print ''\<newline>Invalid input format.\<newline>'')
           (\<lambda>_ w. run_login_screen w) w
       else
         and_then (print ''\<newline>Login service error. Make sure the login microservice is running.\<newline>'')
           (\<lambda>_ w. run_login_screen w) w) w) w)) w"
  by pat_completeness auto
termination
proof (relation "measure (\<lambda>w. length (stdin w))")
  show "wf (measure (\<lambda>w. length (stdin w)))" by simp
qed (auto dest!: prints_stdin print_stdin input_stdin attempt_login_stdin)

declare run_login_screen.simps [simp del]

subsection \<open>save\_generated\_password, export\_saved\_passwords, run\_export\_screen\<close>

text \<open>
  The source appends to the list in place; the model returns the list after the append.
\<close>

definition save_generated_password ::
  "password_record list \<Rightarrow> string \<Rightarrow> int \<Rightarrow> bool \<Rightarrow> bool \<Rightarrow> bool \<Rightarrow> bool
     \<Rightarrow> password_record list" where
  "save_generated_password saved_passwords password' length'' use_lower use_upper use_digit
       use_symbol =
     (let record' = \<lparr>password = password', length' = length'', lowercase = use_lower,
            uppercase = use_upper, numbers = use_digit, symbols = use_symbol\<rparr>
      in saved_passwords @ [record'])"

text \<open>
  \<open>None\<close> when the service cannot be reached or does not answer JSON, and also when it
  answers the JSON \<open>null\<close>: \<open>resp.json()\<close> is \<open>None\<close> then, which the caller takes for the
  service out of reach.
\<close>

definition export_saved_passwords ::
  "password_record list \<Rightarrow> string \<Rightarrow> world \<Rightarrow> response option \<times> world" where
  "export_saved_passwords saved_passwords filename w =
     (case post (ExportRequest filename saved_passwords) w of
        (Unreachable, w') \<Rightarrow> (None, w')
      | (NotJson, w') \<Rightarrow> (None, w')
      | (JsonNull, w') \<Rightarrow> (None, w')
      | (r, w') \<Rightarrow> (Some r, w'))"

text \<open>\<open>result.get(key)\<close> on the answer of the export service.\<close>

definition get :: "response \<Rightarrow> string \<Rightarrow> json \<Rightarrow> json io" where
  "get result key dflt =
     (case result of
        JsonObject data \<Rightarrow> return (case data key of None \<Rightarrow> dflt | Some v \<Rightarrow> v)
      | _ \<Rightarrow> raise AttributeError)"

definition run_export_screen :: "password_record list \<Rightarrow> unit io" where
  "run_export_screen saved_passwords =
     and_then (prints ['''', ''Export Saved Passwords'']) (\<lambda>_.
     if length saved_passwords = 0 then
       and_then (print ''There are no saved passwords to export yet.'') (\<lambda>_.
       and_then (input ''\<newline>Press Enter to return to menu: '') (\<lambda>_.
       return ()))
     else
       and_then (input ''Enter filename (example: passwords.csv) or press Enter for default: '')
         (\<lambda>line.
       let filename = strip line;
           filename = (if filename = '''' then ''passwords.csv'' else filename)
       in (\<lambda>w. case export_saved_passwords saved_passwords filename w of
            (None, w') \<Rightarrow>
              and_then (print ''\<newline>Export service error. Make sure the export microservice is running.\<newline>'') (\<lambda>_.
              and_then (input ''Press Enter to return to menu: '') (\<lambda>_.
              return ())) w'
          | (Some result, w') \<Rightarrow>
              and_then (get result ''status'' JNull) (\<lambda>status.
              and_then
                (if status = JString ''ok'' then
                   and_then (print ''\<newline>Export complete.'') (\<lambda>_.
                   and_then (get result ''path'' JNull) (\<lambda>path.
                   print_val ''Saved file path:'' path))
                 else
                   and_then (get result ''error_message'' (JString ''Unknown error.''))
                     (\<lambda>message.
                   print_val ''\<newline>Export failed:'' message)) (\<lambda>_.
              and_then (input ''\<newline>Press Enter to return to menu: '') (\<lambda>_.
              return ()))) w')))"

subsection \<open>show\_welcome, format\_settings\_line, run\_main\_menu\<close>

definition show_welcome :: "unit io" where
  "show_welcome =
     and_then (prints [''\<newline>PASSWORD GENERATOR\<newline>'',
         ''Welcome to the PASSWORD GENERATOR application by Peter Dalgleish!'',
         ''This application is for generating secure, random passwords to protect any online account.''])
       (\<lambda>_.
     and_then (input ''\<newline>Press enter to continue: '') (\<lambda>_.
     return ()))"

definition format_settings_line :: "int option \<Rightarrow> bool \<Rightarrow> string" where
  "format_settings_line length'' types_set =
     (let length_str =
            (case length'' of None \<Rightarrow> ''[not set]'' | Some n \<Rightarrow> ''['' @ str n @ '']'');
          types_str = (if types_set then ''[set]'' else ''[not set]'')
      in ''Settings: Length = '' @ length_str @ '' | Types = '' @ types_str @
         ''\<newline>'' @ ''MUST SET LENGTH AND CHARACTER TYPES FIRST!'' @ ''\<newline>'')"

definition run_main_menu :: "int option \<Rightarrow> bool \<Rightarrow> string io" where
  "run_main_menu length'' types_set =
     and_then (prints ['''', format_settings_line length'' types_set, ''Menu'',
         ''1) Generate password'', ''2) Edit password settings'', ''3) I need help!'',
         ''4) Export saved passwords to CSV'', ''5) Exit program'']) (\<lambda>_.
     and_then (input ''\<newline>Enter choice: '') (\<lambda>line.
     let choice = strip line in return choice))"

subsection \<open>do\_character\_types and run\_settings\<close>

text \<open>
  \<open>reads_only m\<close>: the action \<open>m\<close> takes lines from the terminal and never adds any. It is
  what the termination of the menu loops rests on.
\<close>

definition reads_only :: "'a io \<Rightarrow> bool" where
  "reads_only m = (\<forall>w r w'. m w = (r, w') \<longrightarrow> length (stdin w') \<le> length (stdin w))"

lemma reads_onlyD: "reads_only m \<Longrightarrow> m w = (r, w') \<Longrightarrow> length (stdin w') \<le> length (stdin w)"
  by (auto simp: reads_only_def)

lemma reads_only_prims:
  "reads_only (prints ss)" "reads_only (print s)" "reads_only (print_val s v)"
  "reads_only (input p)" "reads_only (return x)" "reads_only (raise e)"
  "reads_only exit_program" "reads_only random"
  by (auto simp: reads_only_def prints_def print_def print_val_def input_def return_def
        raise_def exit_program_def random_def split: list.splits)

lemma reads_only_and_then:
  "reads_only m \<Longrightarrow> (\<And>x. reads_only (f x)) \<Longrightarrow> reads_only (and_then m f)"
  unfolding reads_only_def and_then_def
  by (fastforce split: prod.splits sum.splits)

lemma reads_only_if:
  "reads_only a \<Longrightarrow> reads_only b \<Longrightarrow> reads_only (if c then a else b)"
  by simp

lemma reads_only_do_set_length: "reads_only (do_set_length current_length)"
  unfolding do_set_length_def Let_def
  by (intro reads_only_and_then reads_only_if reads_only_prims)

function do_character_types ::
  "bool \<Rightarrow> bool \<Rightarrow> bool \<Rightarrow> bool \<Rightarrow> (bool \<times> bool \<times> bool \<times> bool) io" where
  "do_character_types use_lower use_upper use_digit use_symbol w =
     (let lower_label = (if use_lower then ''ON'' else ''OFF'');
          upper_label = (if use_upper then ''ON'' else ''OFF'');
          digit_label = (if use_digit then ''ON'' else ''OFF'');
          symbol_label = (if use_symbol then ''ON'' else ''OFF'')
      in
      and_then (prints ['''', ''Set Character Types'',
          ''Note: Some sites reject certain symbols, but adding them can significantly increase password strength.'',
          ''Choose which character types to include:\<newline>'',
          ''Lowercase letters (a-z): ['' @ lower_label @ '']'',
          ''Uppercase letters (A-Z): ['' @ upper_label @ '']'',
          ''Numbers (0-9): ['' @ digit_label @ '']'',
          ''Symbols (!@#$...): ['' @ symbol_label @ '']'',
          ''\<newline>1) Toggle lowercase'', ''2) Toggle uppercase'', ''3) Toggle numbers'',
          ''4) Toggle symbols'', ''5) Save and return to settings'']) (\<lambda>_.
      and_then (input ''\<newline>Enter choice: '') (\<lambda>line w.
      let choice = strip line in
      if choice = ''1'' then
        do_character_types (\<not> use_lower) use_upper use_digit use_symbol w
      else if choice = ''2'' then
        do_character_types use_lower (\<not> use_upper) use_digit use_symbol w
      else if choice = ''3'' then
        do_character_types use_lower use_upper (\<not> use_digit) use_symbol w
      else if choice = ''4'' then
        do_character_types use_lower use_upper use_digit (\<not> use_symbol) w
      else if choice = ''5'' then
        return (use_lower, use_upper, use_digit, use_symbol) w
      else
        do_character_types use_lower use_upper use_digit use_symbol w)) w)"
  by pat_completeness auto
termination
proof (relation "measure (\<lambda>(l, u, d, s, w). length (stdin w))")
  show "wf (measure (\<lambda>(l, u, d, s, w). length (stdin w)))" by simp
qed (auto dest!: prints_stdin input_stdin)

declare do_character_types.simps [simp del]

lemma do_character_types_stdin_le:
  "do_character_types l u d s w = (r, w') \<Longrightarrow> length (stdin w') \<le> length (stdin w)"
proof (induction "length (stdin w)" arbitrary: l u d s w r w' rule: less_induct)
  case less
  show ?case using less.prems
    apply (subst (asm) do_character_types.simps)
    apply (simp only: Let_def)
    apply (erule and_then_elim)
     apply (simp add: prints_def)
    apply (erule and_then_elim)
     apply (drule input_stdin_le, drule prints_stdin, simp)
    apply (drule prints_stdin, drule input_stdin_less)
    apply (auto split: if_splits simp: return_def dest!: less.hyps [rotated])
    done
qed

lemma reads_only_do_character_types: "reads_only (do_character_types l u d s)"
  by (auto simp: reads_only_def dest: do_character_types_stdin_le)

function run_settings ::
  "int option \<Rightarrow> bool \<Rightarrow> bool \<Rightarrow> bool \<Rightarrow> bool \<Rightarrow> bool
     \<Rightarrow> (int option \<times> bool \<times> bool \<times> bool \<times> bool \<times> bool) io" where
  "run_settings length'' types_set use_lower use_upper use_digit use_symbol w =
     and_then (prints ['''', format_settings_line length'' types_set, ''1) Set length'',
         ''2) Choose character types'', ''3) Return to menu'', ''4) Exit program'']) (\<lambda>_.
     and_then (input ''\<newline>Enter choice: '') (\<lambda>line w.
     let choice = strip line in
     if choice = ''1'' then
       and_then (do_set_length length'') (\<lambda>length'' w.
       run_settings length'' types_set use_lower use_upper use_digit use_symbol w) w
     else if choice = ''2'' then
       and_then (do_character_types use_lower use_upper use_digit use_symbol)
         (\<lambda>flags w.
       case flags of (use_lower, use_upper, use_digit, use_symbol) \<Rightarrow>
       let types_set = True in
       run_settings length'' types_set use_lower use_upper use_digit use_symbol w) w
     else if choice = ''3'' then
       return (length'', types_set, use_lower, use_upper, use_digit, use_symbol) w
     else if choice = ''4'' then
       exit_program w
     else
       run_settings length'' types_set use_lower use_upper use_digit use_symbol w)) w"
  by pat_completeness auto
termination
proof (relation "measure (\<lambda>(n, t, l, u, d, s, w). length (stdin w))")
  show "wf (measure (\<lambda>(n, t, l, u, d, s, w). length (stdin w)))" by simp
qed (auto dest!: prints_stdin input_stdin_less reads_onlyD [OF reads_only_do_set_length]
       reads_onlyD [OF reads_only_do_character_types])

declare run_settings.simps [simp del]

subsection \<open>generate\_password\<close>

text \<open>
  \<open>random.choices(population, k=k)\<close> of the Python library, without weights:
  \<open>[population[floor(random() * n)] for i in repeat(None, k)]\<close> with \<open>n = len(population)\<close>.
  Indexing past the end raises \<open>IndexError\<close>; a negative \<open>k\<close> repeats no time, as \<open>nat k\<close>
  does. \<open>n\<close> is converted to a double first (\<open>n += 0.0\<close>), and the product is the product
  of two doubles.
\<close>

fun choices :: "'a list \<Rightarrow> nat \<Rightarrow> 'a list io" where
  "choices population 0 w = return [] w"
| "choices population (Suc k) w =
     and_then random (\<lambda>r w.
     let i = floor_of_product r (length population) in
     if i < length population then
       and_then (choices population k) (\<lambda>xs. return (population ! i # xs)) w
     else raise IndexError w) w"

definition ascii_lowercase :: string where
  "ascii_lowercase = ''abcdefghijklmnopqrstuvwxyz''"

definition ascii_uppercase :: string where
  "ascii_uppercase = ''ABCDEFGHIJKLMNOPQRSTUVWXYZ''"

definition digits :: string where
  "digits = ''0123456789''"

text \<open>
  The pool is a list of characters; \<open>"".join\<close> of the characters chosen is the string of
  these characters.
\<close>

definition generate_password :: "int \<Rightarrow> bool \<Rightarrow> bool \<Rightarrow> bool \<Rightarrow> bool \<Rightarrow> string io" where
  "generate_password length'' use_lower use_upper use_digit use_symbol =
     (let pool = [];
          pool = (if use_lower then pool @ ascii_lowercase else pool);
          pool = (if use_upper then pool @ ascii_uppercase else pool);
          pool = (if use_digit then pool @ digits else pool);
          pool = (if use_symbol then pool @ ''!@#$%^&*()_+-=[]{}|;:',.<>?/`~'' else pool)
      in and_then (choices pool (nat length'')) (\<lambda>picked. return picked))"

lemma choices_stdin: "choices population k w = (r, w') \<Longrightarrow> stdin w' = stdin w"
proof (induction k arbitrary: w r w')
  case 0
  then show ?case by (simp add: return_def)
next
  case (Suc k)
  from Suc.prems show ?case
    apply (simp only: choices.simps Let_def)
    apply (erule and_then_elim)
     apply (simp add: random_def)
    apply (drule random_stdin)
    apply (simp split: if_splits add: raise_def)
    apply (erule and_then_elim)
     apply (drule Suc.IH, simp)
    apply (drule Suc.IH, simp add: return_def)
    done
qed

lemma generate_password_stdin:
  "generate_password n l u d s w = (r, w') \<Longrightarrow> stdin w' = stdin w"
  unfolding generate_password_def Let_def
  by (erule and_then_elim) (auto dest: choices_stdin simp: return_def)

subsection \<open>run\_generate\_screen\<close>

text \<open>
  The source appends each record to the caller's list; the model returns the list as it
  is when the screen returns to the menu.
\<close>

function run_generate_screen ::
  "int \<Rightarrow> bool \<Rightarrow> bool \<Rightarrow> bool \<Rightarrow> bool \<Rightarrow> bool \<Rightarrow> password_record list
     \<Rightarrow> password_record list io" where
  "run_generate_screen length'' types_set use_lower use_upper use_digit use_symbol
       saved_passwords w =
     and_then (prints ['''', format_settings_line (Some length'') types_set,
         ''Generated password:'']) (\<lambda>_.
     and_then (generate_password length'' use_lower use_upper use_digit use_symbol) (\<lambda>pwd.
     and_then (print pwd) (\<lambda>_ w.
     let saved_passwords =
           save_generated_password saved_passwords pwd length'' use_lower use_upper
             use_digit use_symbol
     in
     and_then (prints [''1) Generate new password'', ''2) Return to menu'',
         ''3) Exit program'']) (\<lambda>_.
     and_then (input ''\<newline>Enter choice: '') (\<lambda>line w.
     let choice = strip line in
     if choice = ''1'' then
       run_generate_screen length'' types_set use_lower use_upper use_digit use_symbol
         saved_passwords w
     else if choice = ''2'' then return saved_passwords w
     else if choice = ''3'' then exit_program w
     else
       run_generate_screen length'' types_set use_lower use_upper use_digit use_symbol
         saved_passwords w)) w))) w"
  by pat_completeness auto
termination
proof (relation "measure (\<lambda>(n, t, l, u, d, s, h, w). length (stdin w))")
  show "wf (measure (\<lambda>(n, t, l, u, d, s, h, w). length (stdin w)))" by simp
qed (auto dest!: prints_stdin print_stdin input_stdin_less generate_password_stdin)

declare run_generate_screen.simps [simp del]

subsection \<open>The message and help screens\<close>

definition show_settings_required_message :: "unit io" where
  "show_settings_required_message =
     and_then (prints ['''',
         ''Set length and character types first in Edit password settings.'']) (\<lambda>_.
     and_then (input ''\<newline>Press Enter to return to menu: '') (\<lambda>_.
     return ()))"

definition show_quickstart_help :: "unit io" where
  "show_quickstart_help =
     and_then (prints ['''', ''Quickstart Guide'',
         ''To use this program efficiently, follow these steps in order:'',
         ''Step 1/3: Set length'', ''Step 2/3: Choose character types'',
         ''Step 3/3: Generate password'']) (\<lambda>_.
     and_then (input ''\<newline>Press Enter to go back: '') (\<lambda>_.
     return ()))"

definition show_length_help :: "unit io" where
  "show_length_help =
     and_then (prints ['''', ''Help for Password Length'',
         ''When entering the password length, consider:'',
         ''Longer passwords are harder to guess.'',
         ''Recommended length: 12-20 characters.'',
         ''Allowed range in this program: 5-100.'']) (\<lambda>_.
     and_then (input ''\<newline>Press Enter to go back: '') (\<lambda>_.
     return ()))"

definition show_character_types_help :: "unit io" where
  "show_character_types_help =
     and_then (prints ['''', ''Help for Password Character Types'',
         ''Using more character types usually makes passwords stronger.'',
         ''If a site does not allow symbols, toggle symbols OFF.'',
         ''You must select at least one type of character to generate a new password.''])
       (\<lambda>_.
     and_then (input ''\<newline>Press Enter to go back: '') (\<lambda>_.
     return ()))"

lemma reads_only_help:
  "reads_only show_settings_required_message" "reads_only show_quickstart_help"
  "reads_only show_length_help" "reads_only show_character_types_help"
  unfolding show_settings_required_message_def show_quickstart_help_def
    show_length_help_def show_character_types_help_def
  by (intro reads_only_and_then reads_only_prims)+

function run_help_menu :: "unit io" where
  "run_help_menu w =
     and_then (prints ['''', ''Help Menu'', ''1) Quickstart guide'',
         ''2) Password length help'', ''3) Character types help'', ''4) Return to menu'',
         ''5) Exit program'']) (\<lambda>_.
     and_then (input ''\<newline>Enter choice: '') (\<lambda>line w.
     let choice = strip line in
     if choice = ''1'' then
       and_then show_quickstart_help (\<lambda>_ w. run_help_menu w) w
     else if choice = ''2'' then
       and_then show_length_help (\<lambda>_ w. run_help_menu w) w
     else if choice = ''3'' then
       and_then show_character_types_help (\<lambda>_ w. run_help_menu w) w
     else if choice = ''4'' then return () w
     else if choice = ''5'' then exit_program w
     else run_help_menu w)) w"
  by pat_completeness auto
termination
proof (relation "measure (\<lambda>w. length (stdin w))")
  show "wf (measure (\<lambda>w. length (stdin w)))" by simp
qed (auto dest!: prints_stdin input_stdin_less reads_onlyD [OF reads_only_help(2)]
       reads_onlyD [OF reads_only_help(3)] reads_onlyD [OF reads_only_help(4)])

declare run_help_menu.simps [simp del]

lemma run_settings_stdin_le:
  "run_settings n t l u d s w = (r, w') \<Longrightarrow> length (stdin w') \<le> length (stdin w)"
proof (induction "length (stdin w)" arbitrary: n t l u d s w r w' rule: less_induct)
  case less
  show ?case using less.prems
    apply (subst (asm) run_settings.simps)
    apply (erule and_then_elim)
     apply (simp add: prints_def)
    apply (erule and_then_elim)
     apply (drule input_stdin_le, drule prints_stdin, simp)
    apply (drule prints_stdin, drule input_stdin_less)
    apply (auto split: if_splits prod.splits simp: Let_def return_def exit_program_def raise_def
        elim!: and_then_elim
        dest!: reads_onlyD [OF reads_only_do_set_length]
          reads_onlyD [OF reads_only_do_character_types] less.hyps [rotated])
    done
qed

lemma run_generate_screen_stdin_le:
  "run_generate_screen n t l u d s h w = (r, w') \<Longrightarrow> length (stdin w') \<le> length (stdin w)"
proof (induction "length (stdin w)" arbitrary: h w r w' rule: less_induct)
  case less
  show ?case using less.prems
    apply (subst (asm) run_generate_screen.simps)
    apply (erule and_then_elim)
     apply (simp add: prints_def)
    apply (drule prints_stdin)
    apply (erule and_then_elim)
     apply (drule generate_password_stdin, simp)
    apply (drule generate_password_stdin)
    apply (erule and_then_elim)
     apply (simp add: print_def)
    apply (drule print_stdin)
    apply (simp only: Let_def)
    apply (erule and_then_elim)
     apply (simp add: prints_def)
    apply (drule prints_stdin)
    apply (erule and_then_elim)
     apply (drule input_stdin_le, simp)
    apply (drule input_stdin_less)
    apply (auto split: if_splits simp: return_def exit_program_def raise_def
        dest!: less.hyps [rotated])
    done
qed

lemma run_help_menu_stdin_le:
  "run_help_menu w = (r, w') \<Longrightarrow> length (stdin w') \<le> length (stdin w)"
proof (induction "length (stdin w)" arbitrary: w r w' rule: less_induct)
  case less
  show ?case using less.prems
    apply (subst (asm) run_help_menu.simps)
    apply (erule and_then_elim)
     apply (simp add: prints_def)
    apply (erule and_then_elim)
     apply (drule input_stdin_le, drule prints_stdin, simp)
    apply (drule prints_stdin, drule input_stdin_less)
    apply (auto split: if_splits simp: Let_def return_def exit_program_def raise_def
        elim!: and_then_elim
        dest!: reads_onlyD [OF reads_only_help(2)] reads_onlyD [OF reads_only_help(3)]
          reads_onlyD [OF reads_only_help(4)] less.hyps [rotated])
    done
qed

lemma reads_only_screens:
  "reads_only (run_settings n t l u d s)" "reads_only (run_generate_screen k t l u d s h)"
  "reads_only run_help_menu"
  by (auto simp: reads_only_def
        dest: run_settings_stdin_le run_generate_screen_stdin_le run_help_menu_stdin_le)

lemma reads_only_run_export_screen: "reads_only (run_export_screen saved_passwords)"
proof -
  have get: "reads_only (get result key dflt)" for result key dflt
    by (cases result) (simp_all add: get_def reads_only_prims)
  have export: "export_saved_passwords h f w = (a, w') \<Longrightarrow> stdin w' = stdin w" for h f w a w'
    by (auto simp: export_saved_passwords_def split: prod.splits response.splits
          dest: post_stdin)
  have tail: "reads_only (\<lambda>w. case export_saved_passwords h f w of
        (None, w') \<Rightarrow> a w' | (Some result, w') \<Rightarrow> b result w')"
    if "reads_only a" and "\<And>result. reads_only (b result)" for h f a b
    unfolding reads_only_def
  proof (intro allI impI)
    fix w r w'
    assume run: "(case export_saved_passwords h f w of
        (None, w') \<Rightarrow> a w' | (Some result, w') \<Rightarrow> b result w') = (r, w')"
    obtain x w1 where e: "export_saved_passwords h f w = (x, w1)" by force
    from export [OF e] have "stdin w1 = stdin w" .
    with run e that(1) that(2) [unfolded reads_only_def]
    show "length (stdin w') \<le> length (stdin w)"
      by (cases x) (auto dest: reads_onlyD, metis)
  qed
  show ?thesis
    unfolding run_export_screen_def Let_def
    by (intro reads_only_and_then reads_only_if reads_only_prims tail get)
qed

subsection \<open>main\<close>

text \<open>
  One pass through the body of the \<open>while True\<close> loop of \<open>main\<close>: the menu, the branch
  chosen, and the values of the variables of \<open>main\<close> after it.
\<close>

definition main_body ::
  "int option \<Rightarrow> bool \<Rightarrow> bool \<Rightarrow> bool \<Rightarrow> bool \<Rightarrow> bool \<Rightarrow> password_record list
     \<Rightarrow> (int option \<times> bool \<times> bool \<times> bool \<times> bool \<times> bool \<times> password_record list) io" where
  "main_body length'' types_set use_lower use_upper use_digit use_symbol saved_passwords =
     and_then (run_main_menu length'' types_set) (\<lambda>choice.
     if choice = ''1'' then
       if length'' = None \<or> \<not> types_set then
         and_then show_settings_required_message (\<lambda>_.
         return (length'', types_set, use_lower, use_upper, use_digit, use_symbol,
           saved_passwords))
       else
         and_then (run_generate_screen (the length'') types_set use_lower use_upper use_digit
             use_symbol saved_passwords) (\<lambda>saved_passwords.
         return (length'', types_set, use_lower, use_upper, use_digit, use_symbol,
           saved_passwords))
     else if choice = ''2'' then
       and_then (run_settings length'' types_set use_lower use_upper use_digit use_symbol)
         (\<lambda>(length'', types_set, use_lower, use_upper, use_digit, use_symbol).
       return (length'', types_set, use_lower, use_upper, use_digit, use_symbol,
         saved_passwords))
     else if choice = ''3'' then
       and_then run_help_menu (\<lambda>_.
       return (length'', types_set, use_lower, use_upper, use_digit, use_symbol,
         saved_passwords))
     else if choice = ''4'' then
       and_then (run_export_screen saved_passwords) (\<lambda>_.
       return (length'', types_set, use_lower, use_upper, use_digit, use_symbol,
         saved_passwords))
     else if choice = ''5'' then exit_program
     else
       return (length'', types_set, use_lower, use_upper, use_digit, use_symbol,
         saved_passwords))"

lemma main_body_stdin_less:
  assumes "main_body n t l u d s h w = (Inr x, w')"
  shows "length (stdin w') < length (stdin w)"
proof -
  have menu: "run_main_menu n t w = (Inr c, w1) \<Longrightarrow> length (stdin w1) < length (stdin w)"
    for c w1
    unfolding run_main_menu_def Let_def
    by (auto elim!: and_then_elim dest!: prints_stdin input_stdin_less simp: return_def)
  from assms show ?thesis
    unfolding main_body_def
    apply -
    apply (erule and_then_elim)
     apply simp
    apply (drule menu)
    apply (auto split: if_splits prod.splits elim!: and_then_elim
        simp: return_def exit_program_def raise_def
        dest!: reads_onlyD [OF reads_only_help(1)] reads_onlyD [OF reads_only_screens(1)]
          reads_onlyD [OF reads_only_screens(2)] reads_onlyD [OF reads_only_screens(3)]
          reads_onlyD [OF reads_only_run_export_screen])
    done
qed

function main_loop ::
  "int option \<Rightarrow> bool \<Rightarrow> bool \<Rightarrow> bool \<Rightarrow> bool \<Rightarrow> bool \<Rightarrow> password_record list \<Rightarrow> unit io" where
  "main_loop length'' types_set use_lower use_upper use_digit use_symbol saved_passwords w =
     and_then
       (main_body length'' types_set use_lower use_upper use_digit use_symbol saved_passwords)
       (\<lambda>vars w.
     case vars of
       (length'', types_set, use_lower, use_upper, use_digit, use_symbol, saved_passwords) \<Rightarrow>
     main_loop length'' types_set use_lower use_upper use_digit use_symbol saved_passwords w) w"
  by pat_completeness auto
termination
proof (relation "measure (\<lambda>(n, t, l, u, d, s, h, w). length (stdin w))")
  show "wf (measure (\<lambda>(n, t, l, u, d, s, h, w). length (stdin w)))" by simp
qed (auto dest!: main_body_stdin_less)

declare main_loop.simps [simp del]

definition main :: "unit io" where
  "main =
     and_then show_welcome (\<lambda>_.
     and_then run_login_screen (\<lambda>logged_in.
     and_then (if \<not> logged_in then exit_program else return ()) (\<lambda>_.
     let saved_passwords = [];
         length'' = None;
         types_set = False;
         use_lower = True;
         use_upper = True;
         use_digit = True;
         use_symbol = False
     in main_loop length'' types_set use_lower use_upper use_digit use_symbol
          saved_passwords)))"

text \<open>
  The exit status of the process: the code of \<open>SystemExit\<close>, 1 for an exception nothing
  handles, 0 when the script runs to its end.
\<close>

definition exit_status :: "exn + unit \<Rightarrow> int" where
  "exit_status r = (case r of Inr _ \<Rightarrow> 0 | Inl (SystemExit code) \<Rightarrow> code | Inl _ \<Rightarrow> 1)"

section \<open>Properties\<close>

subsection \<open>Concrete worlds\<close>

text \<open>
  A login service that accepts every login, a random stream of zeros, and the world in
  which the user will type the given lines.
\<close>

definition accepting :: "request list \<Rightarrow> response" where
  "accepting sent = JsonObject [''status'' \<mapsto> JString ''ok'']"

definition zeros :: "nat \<Rightarrow> nat" where
  "zeros i = 0"

definition terminal :: "string list \<Rightarrow> world" where
  "terminal lines =
     \<lparr>stdin = lines, stdout = [], requests = [], service = accepting, entropy = zeros,
      draws = 0\<rparr>"

lemmas str_eval =
  strip_def isspace_def lower_def lower_char_def is_digit_def int_of_str_def digit_value_def
  char_of_def bit_iff_odd

subsection \<open>The password generator\<close>

text \<open>
  The pool of the specification: the enabled classes in the fixed order lowercase,
  uppercase, digits, symbols.
\<close>

definition enabled_pool :: "bool \<Rightarrow> bool \<Rightarrow> bool \<Rightarrow> bool \<Rightarrow> string" where
  "enabled_pool lower' upper' digit symbol =
     (if lower' then ''abcdefghijklmnopqrstuvwxyz'' else []) @
     (if upper' then ''ABCDEFGHIJKLMNOPQRSTUVWXYZ'' else []) @
     (if digit then ''0123456789'' else []) @
     (if symbol then ''!@#$%^&*()_+-=[]{}|;:',.<>?/`~'' else [])"

lemma enabled_pool_length: "length (enabled_pool l u d s) < 2 ^ 53"
  by (simp add: enabled_pool_def)

text \<open>
  The rounded product stays below \<open>n\<close>: \<open>floor(random() * n)\<close> is an index of a list of
  \<open>n\<close> elements, for every \<open>n\<close> from 1 to \<open>2 ^ 53\<close>.
\<close>

lemma bit_length_upper: "a < 2 ^ bit_length a"
proof (induction a rule: bit_length.induct)
  case (1 a)
  show ?case
  proof (cases "a = 0")
    case True
    then show ?thesis by (simp add: bit_length.simps)
  next
    case False
    with 1 have "a div 2 < 2 ^ bit_length (a div 2)" by simp
    then have "a < 2 * 2 ^ bit_length (a div 2)" by linarith
    with False show ?thesis by (subst bit_length.simps) simp
  qed
qed

lemma bit_length_lower: "0 < a \<Longrightarrow> 2 ^ (bit_length a - 1) \<le> a"
proof (induction a rule: bit_length.induct)
  case (1 a)
  show ?case
  proof (cases "a div 2 = 0")
    case True
    with 1(2) have "a = 1" by linarith
    then show ?thesis by (simp add: bit_length.simps)
  next
    case False
    with 1 have ih: "2 ^ (bit_length (a div 2) - 1) \<le> a div 2" by simp
    from False have pos: "0 < bit_length (a div 2)" by (subst bit_length.simps) simp
    have "bit_length a = Suc (bit_length (a div 2))"
      using 1(2) by (subst bit_length.simps) simp
    then have "2 ^ (bit_length a - 1) = 2 * 2 ^ (bit_length (a div 2) - 1)"
      using pos by (cases "bit_length (a div 2)") simp_all
    also have "\<dots> \<le> 2 * (a div 2)" using ih by simp
    also have "\<dots> \<le> a" by simp
    finally show ?thesis .
  qed
qed

lemma nearest_double_small: "a < 2 ^ 53 \<Longrightarrow> nearest_double a = a"
  by (simp add: nearest_double_def)

lemma nearest_double_product_less:
  assumes k: "k < 2 ^ 53" and n: "0 < n"
  shows "nearest_double (k * n) < n * 2 ^ 53"
proof (cases "k * n < 2 ^ 53")
  case True
  then have "nearest_double (k * n) = k * n" by (rule nearest_double_small)
  also from k n have "k * n < 2 ^ 53 * n" by simp
  finally show ?thesis by (simp add: mult.commute)
next
  case False
  define a where "a = k * n"
  define shift where "shift = bit_length a - 53"
  define q where "q = a div 2 ^ shift"
  define r where "r = a mod 2 ^ shift"
  define half where "half = (2::nat) ^ (shift - 1)"
  from False have big: "2 ^ 53 \<le> a" by (simp add: a_def)
  with bit_length_upper [of a] have "(2::nat) ^ 53 < 2 ^ bit_length a" by linarith
  then have bl: "53 < bit_length a" by (rule power_less_imp_less_exp [rotated]) simp
  then have shift: "0 < shift" and bl_eq: "bit_length a - 1 = shift + 52"
    by (simp_all add: shift_def)
  from shift have two_half: "(2::nat) ^ shift = 2 * half"
    by (cases shift) (simp_all add: half_def)
  from big have "0 < a" by simp
  from bit_length_lower [OF this] bl_eq have low: "2 ^ (shift + 52) \<le> a" by simp
  from k have "Suc k \<le> 2 ^ 53" by simp
  then have "Suc k * n \<le> 2 ^ 53 * n" by (rule mult_le_mono1)
  then have room: "a + n \<le> n * 2 ^ 53" by (simp add: a_def mult.commute)
  have "half * 2 ^ 53 = 2 ^ (shift + 52)"
    using shift by (cases shift) (simp_all add: half_def power_add)
  with low room n have "half * 2 ^ 53 < n * 2 ^ 53" by linarith
  then have half_n: "half < n" by simp
  have split: "a = q * 2 ^ shift + r"
    unfolding q_def r_def by (rule div_mult_mod_eq [symmetric])
  have nd: "nearest_double a =
      (if r > half \<or> (r = half \<and> odd q) then q + 1 else q) * 2 ^ shift"
    using big by (simp add: nearest_double_def Let_def shift_def q_def r_def half_def)
  show ?thesis
  proof (cases "r > half \<or> (r = half \<and> odd q)")
    case True
    then have "half \<le> r" by auto
    from True nd have "nearest_double a = q * 2 ^ shift + 2 ^ shift" by simp
    also have "\<dots> = (a - r) + 2 * half" using split two_half by simp
    also have "\<dots> \<le> a + half" using \<open>half \<le> r\<close> split by linarith
    also have "\<dots> < a + n" using half_n by simp
    also note room
    finally show ?thesis by (simp add: a_def)
  next
    case False
    with nd have "nearest_double a = q * 2 ^ shift" by simp
    also have "\<dots> \<le> a" using split by simp
    also have "\<dots> < n * 2 ^ 53" using room n by linarith
    finally show ?thesis by (simp add: a_def)
  qed
qed

lemma floor_of_product_less:
  assumes "k < 2 ^ 53" and "0 < n" and "n < 2 ^ 53"
  shows "floor_of_product k n < n"
proof -
  from assms(3) have "nearest_double n = n" by (rule nearest_double_small)
  with nearest_double_product_less [OF assms(1,2)]
  have "nearest_double (k * nearest_double n) < n * 2 ^ 53" by simp
  then show ?thesis
    unfolding floor_of_product_def by (simp add: less_mult_imp_div_less)
qed

text \<open>
  The rounding matters: at this number of the stream and a pool of 62 characters the exact
  product is just below 8, the product of the doubles is 8.
\<close>

lemma floor_of_product_rounds: "floor_of_product 1162219258676257 62 = 8"
  by (simp add: floor_of_product_def nearest_double_def bit_length.simps Let_def)

text \<open>The element of the population that the \<open>i\<close>-th number of the random stream selects.\<close>

definition pick :: "'a list \<Rightarrow> (nat \<Rightarrow> nat) \<Rightarrow> nat \<Rightarrow> 'a" where
  "pick population e i = population ! floor_of_product (e i mod 2 ^ 53) (length population)"

lemma index_in_range:
  assumes "population \<noteq> []" and "length population < 2 ^ 53"
  shows "floor_of_product (k mod 2 ^ 53) (length population) < length population"
proof -
  have "k mod 2 ^ 53 < (2 ^ 53 :: nat)" by simp
  moreover from assms(1) have "0 < length population" by simp
  ultimately show ?thesis using assms(2) by (rule floor_of_product_less)
qed

lemma pick_in_pool:
  "population \<noteq> [] \<Longrightarrow> length population < 2 ^ 53 \<Longrightarrow> pick population e i \<in> set population"
  unfolding pick_def by (rule nth_mem) (rule index_in_range)

lemma choices_nonempty:
  assumes "population \<noteq> []" and "length population < 2 ^ 53"
  shows "choices population k w =
     (Inr (map (pick population (entropy w)) [draws w ..< draws w + k]),
      w\<lparr>draws := draws w + k\<rparr>)"
proof (induction k arbitrary: w)
  case 0
  show ?case by (simp add: return_def)
next
  case (Suc k)
  have "[draws w ..< draws w + Suc k] = draws w # [Suc (draws w) ..< Suc (draws w) + k]"
    by (simp add: upt_conv_Cons)
  then show ?case
    using index_in_range [OF assms, of "entropy w (draws w)"]
    by (simp add: Suc.IH and_then_def random_def return_def Let_def pick_def)
qed

lemma choices_empty:
  "choices [] (Suc k) w = (Inl IndexError, w\<lparr>draws := Suc (draws w)\<rparr>)"
  by (simp add: and_then_def random_def raise_def Let_def)

lemma generate_password_pool:
  "generate_password n l u d s =
     and_then (choices (enabled_pool l u d s) (nat n)) (\<lambda>picked. return picked)"
  by (simp add: generate_password_def enabled_pool_def Let_def ascii_lowercase_def
        ascii_uppercase_def digits_def)

lemma generate_password_nonempty:
  assumes "l \<or> u \<or> d \<or> s"
  shows "generate_password n l u d s w =
     (Inr (map (pick (enabled_pool l u d s) (entropy w)) [draws w ..< draws w + nat n]),
      w\<lparr>draws := draws w + nat n\<rparr>)"
proof -
  from assms have "enabled_pool l u d s \<noteq> []" by (auto simp: enabled_pool_def)
  then show ?thesis
    by (simp add: generate_password_pool and_then_def return_def
          choices_nonempty [OF _ enabled_pool_length])
qed

text \<open>
  C2. For every length from 1 on (the bound 100 is not needed) and every choice of the four
  flags with at least one of them true, \<open>generate_password\<close> returns a string of exactly
  \<open>length\<close> characters, each of them in the pool of the enabled classes. The pool is the
  concatenation, in this order, of a-z, A-Z, 0-9 and the 30 symbols: the character at each
  position is the one at the index \<open>floor(random() * n)\<close> of that list, the product being the
  product of doubles.
\<close>

theorem generate_password_returns:
  assumes "1 \<le> n" and "use_lower \<or> use_upper \<or> use_digit \<or> use_symbol"
  shows "\<exists>pwd w'.
     generate_password n use_lower use_upper use_digit use_symbol w = (Inr pwd, w') \<and>
     int (length pwd) = n \<and>
     set pwd \<subseteq> set (enabled_pool use_lower use_upper use_digit use_symbol) \<and>
     pwd = map (pick (enabled_pool use_lower use_upper use_digit use_symbol) (entropy w))
             [draws w ..< draws w + nat n] \<and>
     length (enabled_pool False False False True) = 30"
proof -
  let ?pool = "enabled_pool use_lower use_upper use_digit use_symbol"
  let ?pwd = "map (pick ?pool (entropy w)) [draws w ..< draws w + nat n]"
  from assms(2) have ne: "?pool \<noteq> []" by (auto simp: enabled_pool_def)
  have "generate_password n use_lower use_upper use_digit use_symbol w =
      (Inr ?pwd, w\<lparr>draws := draws w + nat n\<rparr>)"
    by (rule generate_password_nonempty [OF assms(2)])
  moreover have "int (length ?pwd) = n"
    using assms(1) by simp
  moreover have "set ?pwd \<subseteq> set ?pool"
    using pick_in_pool [OF ne enabled_pool_length] by auto
  moreover have "length (enabled_pool False False False True) = 30"
    by (simp add: enabled_pool_def)
  ultimately show ?thesis by blast
qed

text \<open>
  A stream whose every number is 1162219258676257, and the world of a terminal with that
  stream.
\<close>

definition sevens :: "nat \<Rightarrow> nat" where
  "sevens i = 1162219258676257"

theorem generate_password_returns_witness:
  "(\<exists>pwd w'. generate_password 5 True False False False (terminal []) = (Inr pwd, w') \<and>
      pwd = ''aaaaa'') \<and>
   (\<exists>pwd w'. generate_password 2 True True True False ((terminal [])\<lparr>entropy := sevens\<rparr>)
        = (Inr pwd, w') \<and> pwd = ''ii'')"
proof -
  have len: "length (enabled_pool True True True False) = 62"
    by (simp add: enabled_pool_def)
  have i8: "enabled_pool True True True False ! 8 = CHR ''i''"
    by (simp add: enabled_pool_def)
  have eight: "pick (enabled_pool True True True False) sevens i = CHR ''i''" for i
    by (simp add: pick_def sevens_def len floor_of_product_rounds i8)
  have zero: "pick (enabled_pool True False False False) zeros i = CHR ''a''" for i
    by (simp add: pick_def zeros_def enabled_pool_def floor_of_product_def
          nearest_double_def)
  from generate_password_returns [of 5 True False False False "terminal []"]
  have "\<exists>pwd w'. generate_password 5 True False False False (terminal []) = (Inr pwd, w') \<and>
      pwd = ''aaaaa''"
    by (auto simp: terminal_def zero upt_conv_Cons)
  moreover
  from generate_password_returns
    [of 2 True True True False "(terminal [])\<lparr>entropy := sevens\<rparr>"]
  have "\<exists>pwd w'. generate_password 2 True True True False ((terminal [])\<lparr>entropy := sevens\<rparr>)
        = (Inr pwd, w') \<and> pwd = ''ii''"
    by (auto simp: terminal_def eight upt_conv_Cons)
  ultimately show ?thesis by (rule conjI)
qed

text \<open>
  C10. With the four flags false the pool is empty, and for every length from 1 on
  \<open>generate_password\<close> returns no string: the first draw raises \<open>IndexError\<close>.
\<close>

theorem generate_password_empty_pool:
  assumes "1 \<le> n"
  shows "enabled_pool False False False False = [] \<and>
     generate_password n False False False False w =
       (Inl IndexError, w\<lparr>draws := Suc (draws w)\<rparr>)"
proof -
  from assms obtain k where k: "nat n = Suc k" by (cases "nat n") auto
  show ?thesis
    by (simp add: generate_password_pool k and_then_def choices_empty enabled_pool_def
          del: choices.simps)
qed

theorem generate_password_empty_pool_witness:
  "fst (generate_password 12 False False False False (terminal [])) = Inl IndexError"
  using generate_password_empty_pool [of 12 "terminal []"] by simp

subsection \<open>Setting the length\<close>

text \<open>
  C3, as the code has it: what \<open>do_set_length\<close> gives for every previous length and every
  world. The first line, trimmed, is the input and the line after it the answer to the
  weak-length question, when that is asked. Whenever \<open>do_set_length\<close> returns, it returns
  the previous length when the input is empty, or holds a character that is no digit, or
  is a number outside 5..100, or is a number from 5 to 9 and the answer, trimmed and in
  lower case, is not \<open>y\<close>; in every other case it returns the number. So the answers \<open>Y\<close>
  and \<open> y \<close> confirm a weak length as \<open>y\<close> does. It does not return when the terminal has
  no line left at one of its prompts (\<open>EOFError\<close>), or when the input is a string of more
  than 4300 digits (\<open>ValueError\<close> of \<open>int\<close>).
\<close>

theorem do_set_length_result:
  "fst (do_set_length current w) =
     (case stdin w of
        [] \<Rightarrow> Inl EOFError
      | line # later \<Rightarrow>
          let raw = strip line; n = int_of_str raw
          in if raw = [] \<or> \<not> list_all is_digit raw then
               (if later = [] then Inl EOFError else Inr current)
             else if length raw > 4300 then Inl ValueError
             else if n < 5 \<or> n > 100 then
               (if later = [] then Inl EOFError else Inr current)
             else if n < 10 then
               (case later of
                  [] \<Rightarrow> Inl EOFError
                | answer # later' \<Rightarrow>
                    if lower (strip answer) \<noteq> ''y'' then
                      (if later' = [] then Inl EOFError else Inr current)
                    else Inr (Some n))
             else Inr (Some n))"
  by (simp add: do_set_length_def Let_def and_then_def prints_def input_def return_def
        raise_def max_str_digits_def split: list.splits)

theorem do_set_length_result_witness:
  "fst (do_set_length (Some 20) (terminal [''12'', ''4''])) = Inr (Some 12) \<and>
   fst (do_set_length (Some 20) (terminal [''7'', ''n'', ''''])) = Inr (Some 20) \<and>
   fst (do_set_length (Some 20) (terminal [''7'', ''n''])) = Inl EOFError \<and>
   fst (do_set_length (Some 20) (terminal [''4x'', ''''])) = Inr (Some 20) \<and>
   fst (do_set_length (Some 20) (terminal [''101'', ''''])) = Inr (Some 20)"
  using do_set_length_result [of "Some 20" "terminal [''12'', ''4'']"]
    do_set_length_result [of "Some 20" "terminal [''7'', ''n'', '''']"]
    do_set_length_result [of "Some 20" "terminal [''7'', ''n'']"]
    do_set_length_result [of "Some 20" "terminal [''4x'', '''']"]
    do_set_length_result [of "Some 20" "terminal [''101'', '''']"]
  by (simp add: terminal_def str_eval)

text \<open>
  The claim as the specification states it asks for an exact lower-case \<open>y\<close>: it fails on
  the answer \<open>Y\<close>, which the code accepts.
\<close>

theorem do_set_length_counterexample:
  "''Y'' \<noteq> ''y'' \<and>
   fst (do_set_length None (terminal [''7'', ''Y''])) = Inr (Some 7) \<and>
   fst (do_set_length None (terminal [''7'', ''Y''])) \<noteq> Inr None"
  by (simp add: do_set_length_def Let_def and_then_def prints_def input_def return_def
        raise_def max_str_digits_def terminal_def str_eval)

subsection \<open>The export screen\<close>

text \<open>
  C6. With an empty history the export screen shows its heading and the message that there
  is nothing to export, waits for Enter and returns: it sends no request, so the export
  service is never called. (When the terminal has no line left, the wait for Enter raises
  \<open>EOFError\<close>, still without a request.)
\<close>

theorem run_export_screen_empty:
  "requests (snd (run_export_screen [] w)) = requests w \<and>
   stdout (snd (run_export_screen [] w)) =
     stdout w @ [Line '''', Line ''Export Saved Passwords'',
       Line ''There are no saved passwords to export yet.'',
       Prompt ''\<newline>Press Enter to return to menu: ''] \<and>
   fst (run_export_screen [] w) = (if stdin w = [] then Inl EOFError else Inr ())"
  by (simp add: run_export_screen_def and_then_def prints_def print_def input_def return_def
        split: list.splits)

theorem run_export_screen_empty_witness:
  "requests (snd (run_export_screen [] (terminal ['''']))) = [] \<and>
   fst (run_export_screen [] (terminal [''''])) = Inr ()"
  using run_export_screen_empty [of "terminal ['''']"] by (simp add: terminal_def)

subsection \<open>The login screen\<close>

lemma run_login_screen_blank:
  assumes "stdin w = line # rest" and "strip line = []"
  shows "run_login_screen w =
     (Inr False,
      w\<lparr>stdin := rest,
        stdout := stdout w @ [Line '''', Line ''Login Required'',
          Line ''Enter your username and password to continue.'',
          Line ''Press Enter on username to quit.\<newline>'', Prompt ''Username: '']\<rparr>)"
  using assms
  by (subst run_login_screen.simps)
    (simp add: and_then_def prints_def input_def return_def)

lemma main_login_refused:
  assumes "show_welcome w0 = (Inr (), w1)" and "run_login_screen w1 = (Inr False, w2)"
  shows "main w0 = (Inl (SystemExit 0), w2)"
  using assms by (simp add: main_def and_then_def exit_program_def raise_def)

text \<open>
  C7. When the login screen, at any pass through its loop, reads a user name that is blank
  after trimming, it returns \<open>False\<close> at once: the world it leaves differs from the one it
  found only by the line read and the text shown, so no request was sent. And \<open>main\<close>,
  whose login loop has come to that pass, ends there with \<open>SystemExit(0)\<close>: nothing runs
  after it, so no request is sent later either.
\<close>

theorem blank_username_exits_without_login_call:
  assumes "stdin w = line # rest" and "strip line = []"
  shows "\<exists>w'. run_login_screen w = (Inr False, w') \<and> requests w' = requests w \<and>
     stdin w' = rest \<and>
     (\<forall>w0 w1. show_welcome w0 = (Inr (), w1) \<longrightarrow> run_login_screen w1 = run_login_screen w \<longrightarrow>
        main w0 = (Inl (SystemExit 0), w') \<and> exit_status (fst (main w0)) = 0)"
proof -
  let ?w' = "w\<lparr>stdin := rest,
        stdout := stdout w @ [Line '''', Line ''Login Required'',
          Line ''Enter your username and password to continue.'',
          Line ''Press Enter on username to quit.\<newline>'', Prompt ''Username: '']\<rparr>"
  have blank: "run_login_screen w = (Inr False, ?w')"
    by (rule run_login_screen_blank [OF assms])
  have after: "main w0 = (Inl (SystemExit 0), ?w') \<and> exit_status (fst (main w0)) = 0"
    if "show_welcome w0 = (Inr (), w1)" and "run_login_screen w1 = run_login_screen w"
    for w0 w1
    using main_login_refused [OF that(1), of ?w'] that(2) blank
    by (simp add: exit_status_def)
  show ?thesis
  proof (intro exI conjI allI impI)
    show "run_login_screen w = (Inr False, ?w')" by (rule blank)
    show "requests ?w' = requests w" by simp
    show "stdin ?w' = rest" by simp
    show "main w0 = (Inl (SystemExit 0), ?w')"
      if "show_welcome w0 = (Inr (), w1)" and "run_login_screen w1 = run_login_screen w"
      for w0 w1
      using after [OF that] by (rule conjunct1)
    show "exit_status (fst (main w0)) = 0"
      if "show_welcome w0 = (Inr (), w1)" and "run_login_screen w1 = run_login_screen w"
      for w0 w1
      using after [OF that] by (rule conjunct2)
  qed
qed

theorem blank_username_exits_without_login_call_witness:
  "fst (main (terminal ['''', '' ''])) = Inl (SystemExit 0) \<and>
   requests (snd (main (terminal ['''', '' '']))) = []"
proof -
  let ?start = "terminal ['''', '' '']"
  let ?greeted = "snd (show_welcome ?start)"
  have shown: "show_welcome ?start = (Inr (), ?greeted)" and greeted: "stdin ?greeted = ['' '']"
    and r1: "requests ?greeted = []"
    by (simp_all add: show_welcome_def and_then_def prints_def input_def return_def
          terminal_def)
  have blank: "strip '' '' = []" by (simp add: str_eval)
  from blank_username_exits_without_login_call [OF greeted blank]
  obtain w' where "requests w' = requests ?greeted"
    and "\<forall>w0 w1. show_welcome w0 = (Inr (), w1) \<longrightarrow> run_login_screen w1 = run_login_screen ?greeted \<longrightarrow>
        main w0 = (Inl (SystemExit 0), w') \<and> exit_status (fst (main w0)) = 0"
    by blast
  with shown r1 show ?thesis by simp
qed

subsection \<open>The character types screen\<close>

text \<open>What one pass through the loop of \<open>do_character_types\<close> shows.\<close>

definition character_types_screen :: "bool \<Rightarrow> bool \<Rightarrow> bool \<Rightarrow> bool \<Rightarrow> display list" where
  "character_types_screen use_lower use_upper use_digit use_symbol =
     [Line '''', Line ''Set Character Types'',
      Line ''Note: Some sites reject certain symbols, but adding them can significantly increase password strength.'',
      Line ''Choose which character types to include:\<newline>'',
      Line (''Lowercase letters (a-z): ['' @ (if use_lower then ''ON'' else ''OFF'') @ '']''),
      Line (''Uppercase letters (A-Z): ['' @ (if use_upper then ''ON'' else ''OFF'') @ '']''),
      Line (''Numbers (0-9): ['' @ (if use_digit then ''ON'' else ''OFF'') @ '']''),
      Line (''Symbols (!@#$...): ['' @ (if use_symbol then ''ON'' else ''OFF'') @ '']''),
      Line ''\<newline>1) Toggle lowercase'', Line ''2) Toggle uppercase'',
      Line ''3) Toggle numbers'', Line ''4) Toggle symbols'',
      Line ''5) Save and return to settings'', Prompt ''\<newline>Enter choice: '']"

lemma do_character_types_step:
  assumes "stdin w = line # rest"
  shows "do_character_types l u d s w =
     (let choice = strip line;
          w' = w\<lparr>stdin := rest, stdout := stdout w @ character_types_screen l u d s\<rparr>
      in if choice = ''1'' then do_character_types (\<not> l) u d s w'
         else if choice = ''2'' then do_character_types l (\<not> u) d s w'
         else if choice = ''3'' then do_character_types l u (\<not> d) s w'
         else if choice = ''4'' then do_character_types l u d (\<not> s) w'
         else if choice = ''5'' then (Inr (l, u, d, s), w')
         else do_character_types l u d s w')"
  using assms
  by (subst do_character_types.simps)
    (simp add: Let_def and_then_def prints_def input_def return_def character_types_screen_def
      split del: if_split cong: if_cong)

text \<open>
  What the specification says a line typed at the character types screen does to the four
  flags: the choices 1 to 4 flip one flag each, any other line leaves them as they are.
\<close>

definition toggle :: "string \<Rightarrow> bool \<times> bool \<times> bool \<times> bool \<Rightarrow> bool \<times> bool \<times> bool \<times> bool" where
  "toggle choice flags =
     (case flags of (l, u, d, s) \<Rightarrow>
        if choice = ''1'' then (\<not> l, u, d, s)
        else if choice = ''2'' then (l, \<not> u, d, s)
        else if choice = ''3'' then (l, u, \<not> d, s)
        else if choice = ''4'' then (l, u, d, \<not> s)
        else (l, u, d, s))"

lemma toggle_twice: "toggle c (toggle c flags) = flags"
  by (cases flags) (simp add: toggle_def)

text \<open>
  The screen run on lines of which none is the choice 5, then the choice 5 (save): it
  returns the flags it was given with the lines applied to them in turn, and has read
  just these lines.
\<close>

lemma do_character_types_run:
  assumes "list_all (\<lambda>c. strip c \<noteq> ''5'') lines" and "strip save = ''5''"
    and "stdin w = lines @ save # rest"
  shows "\<exists>w'. do_character_types l u d s w =
      (Inr (foldl (\<lambda>flags c. toggle (strip c) flags) (l, u, d, s) lines), w') \<and>
      stdin w' = rest"
  using assms
proof (induction lines arbitrary: l u d s w)
  case Nil
  then have "stdin w = save # rest" by simp
  from do_character_types_step [OF this, of l u d s] Nil(2) show ?case by simp
next
  case (Cons c lines)
  let ?w1 = "w\<lparr>stdin := lines @ save # rest,
    stdout := stdout w @ character_types_screen l u d s\<rparr>"
  from Cons.prems(3) have in0: "stdin w = c # (lines @ save # rest)" by simp
  from Cons.prems(1) have c: "strip c \<noteq> ''5''" and rest_ok: "list_all (\<lambda>c. strip c \<noteq> ''5'') lines"
    by simp_all
  have in1: "stdin ?w1 = lines @ save # rest" by simp
  obtain l' u' d' s' where t: "toggle (strip c) (l, u, d, s) = (l', u', d', s')"
    by (cases "toggle (strip c) (l, u, d, s)") auto
  have "do_character_types l u d s w = do_character_types l' u' d' s' ?w1"
    using do_character_types_step [OF in0, of l u d s] c t
    by (auto simp: toggle_def Let_def split: if_splits)
  moreover from Cons.IH [OF rest_ok Cons.prems(2) in1, of l' u' d' s']
  obtain w' where "do_character_types l' u' d' s' ?w1 =
      (Inr (foldl (\<lambda>flags c. toggle (strip c) flags) (l', u', d', s') lines), w')"
    and "stdin w' = rest"
    by blast
  ultimately show ?case using t by auto
qed

text \<open>
  C9. The character types screen, run on lines none of which is the choice 5 and then the
  choice 5, returns the four flags it was given with each line applied in turn, where a
  line that is the choice 1, 2, 3 or 4 negates exactly that one flag and leaves the other
  three, and any other line leaves all four. So one toggle followed by Save returns the
  flags with that one flag negated, and the same toggle twice in a row, wherever it comes
  among the lines, changes nothing: followed by Save alone it returns the four flags as
  they were.
\<close>

theorem toggle_flips_one_flag:
  assumes "list_all (\<lambda>c. strip c \<noteq> ''5'') lines" and "strip save = ''5''"
    and "stdin w = lines @ save # rest"
  shows
    "fst (do_character_types l u d s w) =
       Inr (foldl (\<lambda>flags c. toggle (strip c) flags) (l, u, d, s) lines) \<and>
     (\<forall>c. lines = [c] \<longrightarrow>
        fst (do_character_types l u d s w) =
          Inr (if strip c = ''1'' then (\<not> l, u, d, s)
               else if strip c = ''2'' then (l, \<not> u, d, s)
               else if strip c = ''3'' then (l, u, \<not> d, s)
               else if strip c = ''4'' then (l, u, d, \<not> s)
               else (l, u, d, s))) \<and>
     (\<forall>c c'. lines = [c, c'] \<longrightarrow> strip c = strip c' \<longrightarrow>
        fst (do_character_types l u d s w) = Inr (l, u, d, s)) \<and>
     (\<forall>before c c' after. lines = before @ [c, c'] @ after \<longrightarrow> strip c = strip c' \<longrightarrow>
        fst (do_character_types l u d s w) =
          Inr (foldl (\<lambda>flags c. toggle (strip c) flags) (l, u, d, s) (before @ after)))"
proof -
  from do_character_types_run [OF assms, of l u d s]
  have run: "fst (do_character_types l u d s w) =
       Inr (foldl (\<lambda>flags c. toggle (strip c) flags) (l, u, d, s) lines)"
    by auto
  have one: "fst (do_character_types l u d s w) =
          Inr (if strip c = ''1'' then (\<not> l, u, d, s)
               else if strip c = ''2'' then (l, \<not> u, d, s)
               else if strip c = ''3'' then (l, u, \<not> d, s)
               else if strip c = ''4'' then (l, u, d, \<not> s)
               else (l, u, d, s))"
    if "lines = [c]" for c
    using run that by (simp add: toggle_def)
  have cancel: "fst (do_character_types l u d s w) =
          Inr (foldl (\<lambda>flags c. toggle (strip c) flags) (l, u, d, s) (before @ after))"
    if "lines = before @ [c, c'] @ after" and "strip c = strip c'" for before c c' after
    using run that by (simp add: toggle_twice)
  have two: "fst (do_character_types l u d s w) = Inr (l, u, d, s)"
    if "lines = [c, c']" and "strip c = strip c'" for c c'
    using cancel [of "[]" c c' "[]"] that by simp
  from run one two cancel show ?thesis by blast
qed

theorem toggle_flips_one_flag_witness:
  "fst (do_character_types True True True False (terminal [''3'', ''5'']))
     = Inr (True, True, False, False) \<and>
   fst (do_character_types True True True False (terminal [''3'', ''3'', ''5'']))
     = Inr (True, True, True, False) \<and>
   fst (do_character_types True True True False (terminal [''4'', ''1'', '' 1 '', ''x'', ''5'']))
     = Inr (True, True, True, True)"
proof -
  have five: "strip ''5'' = ''5''" by (simp add: str_eval)
  have a: "list_all (\<lambda>c. strip c \<noteq> ''5'') [''3'']"
    and b: "list_all (\<lambda>c. strip c \<noteq> ''5'') [''3'', ''3'']"
    and c: "list_all (\<lambda>c. strip c \<noteq> ''5'') [''4'', ''1'', '' 1 '', ''x'']"
    by (simp_all add: str_eval)
  from toggle_flips_one_flag [OF a five, of "terminal [''3'', ''5'']" "[]" True True True False]
  have "fst (do_character_types True True True False (terminal [''3'', ''5'']))
     = Inr (True, True, False, False)"
    by (simp add: terminal_def toggle_def str_eval)
  moreover
  from toggle_flips_one_flag
    [OF b five, of "terminal [''3'', ''3'', ''5'']" "[]" True True True False]
  have "fst (do_character_types True True True False (terminal [''3'', ''3'', ''5'']))
     = Inr (True, True, True, False)"
    by (simp add: terminal_def toggle_def str_eval)
  moreover
  from toggle_flips_one_flag
    [OF c five, of "terminal [''4'', ''1'', '' 1 '', ''x'', ''5'']" "[]" True True True False]
  have "fst (do_character_types True True True False
      (terminal [''4'', ''1'', '' 1 '', ''x'', ''5''])) = Inr (True, True, True, True)"
    by (simp add: terminal_def toggle_def str_eval)
  ultimately show ?thesis by blast
qed

subsection \<open>The states of a session\<close>

text \<open>
  The values of the variables of \<open>main\<close> (length, types\_set, the four flags, the saved
  passwords) each time control is at the head of its \<open>while True\<close> loop, in a run that
  starts in the world \<open>w0\<close>: those after a successful login, and those one pass of the
  loop body later.
\<close>

inductive reachable ::
  "world \<Rightarrow>
   (int option \<times> bool \<times> bool \<times> bool \<times> bool \<times> bool \<times> password_record list) \<times> world \<Rightarrow> bool"
  for w0 :: world where
  start: "show_welcome w0 = (Inr (), w1) \<Longrightarrow> run_login_screen w1 = (Inr True, w2)
     \<Longrightarrow> reachable w0 ((None, False, True, True, True, False, []), w2)"
| step: "reachable w0 ((n, t, l, u, d, s, h), w) \<Longrightarrow> main_body n t l u d s h w = (Inr vars, w')
     \<Longrightarrow> reachable w0 (vars, w')"

text \<open>The run of \<open>main\<close> passes through each of these states.\<close>

lemma reachable_main:
  "reachable w0 (vars, w) \<Longrightarrow>
     main w0 = (case vars of (n, t, l, u, d, s, h) \<Rightarrow> main_loop n t l u d s h w)"
proof (induction "(vars, w)" arbitrary: vars w rule: reachable.induct)
  case (start w1 w2)
  then show ?case by (simp add: main_def and_then_def return_def Let_def)
next
  case (step n t l u d s h w vars w')
  from step.hyps(2) have "main w0 = main_loop n t l u d s h w" by simp
  also have "\<dots> = (case vars of (n, t, l, u, d, s, h) \<Rightarrow> main_loop n t l u d s h w')"
    using step.hyps(3) by (subst main_loop.simps) (simp add: and_then_def)
  finally show ?case .
qed

text \<open>What a pass of the loop body that returns has done.\<close>

lemma main_body_cases:
  assumes "main_body n t l u d s h w = (Inr (n', t', l', u', d', s', h'), w')"
  obtains (generate) w1 k where "run_main_menu n t w = (Inr ''1'', w1)" and "n = Some k"
      and "t" and "run_generate_screen k t l u d s h w1 = (Inr h', w')"
      and "n' = n" and "t' = t" and "l' = l" and "u' = u" and "d' = d" and "s' = s"
  | (settings) w1 where "run_main_menu n t w = (Inr ''2'', w1)"
      and "run_settings n t l u d s w1 = (Inr (n', t', l', u', d', s'), w')" and "h' = h"
  | (other) "n' = n" and "t' = t" and "l' = l" and "u' = u" and "d' = d" and "s' = s"
      and "h' = h"
  using assms [unfolded main_body_def]
proof (cases rule: and_then_elim)
  case (raised e)
  then show ?thesis by simp
next
  case (returned choice w1)
  note menu = returned(1) and body = returned(2)
  consider "choice = ''1''" | "choice = ''2''" | "choice = ''3''" | "choice = ''4''"
    | "choice = ''5''"
    | "choice \<noteq> ''1''" "choice \<noteq> ''2''" "choice \<noteq> ''3''" "choice \<noteq> ''4''" "choice \<noteq> ''5''"
    by blast
  then show ?thesis
  proof cases
    case 1
    show ?thesis
    proof (cases "n = None \<or> \<not> t")
      case True
      with body 1 have "and_then show_settings_required_message
          (\<lambda>_. return (n, t, l, u, d, s, h)) w1 = (Inr (n', t', l', u', d', s', h'), w')"
        by simp
      then have "(n', t', l', u', d', s', h') = (n, t, l, u, d, s, h)"
        by (rule and_then_elim) (simp_all add: return_def)
      then show ?thesis by (intro other) simp_all
    next
      case False
      then obtain k where k: "n = Some k" and t: "t" by auto
      from body 1 False have "and_then (run_generate_screen (the n) t l u d s h)
          (\<lambda>saved. return (n, t, l, u, d, s, saved)) w1 = (Inr (n', t', l', u', d', s', h'), w')"
        by simp
      then obtain saved w2 where "run_generate_screen (the n) t l u d s h w1 = (Inr saved, w2)"
        and "return (n, t, l, u, d, s, saved) w2 = (Inr (n', t', l', u', d', s', h'), w')"
        by (rule and_then_elim) simp_all
      with k have "run_generate_screen k t l u d s h w1 = (Inr h', w')"
        and "(n', t', l', u', d', s') = (n, t, l, u, d, s)"
        by (simp_all add: return_def)
      with menu 1 k t show ?thesis by (intro generate [of w1 k]) simp_all
    qed
  next
    case 2
    with body have "and_then (run_settings n t l u d s)
        (\<lambda>(a, b, c, d, e, f). return (a, b, c, d, e, f, h)) w1
          = (Inr (n', t', l', u', d', s', h'), w')"
      by simp
    then obtain x w2 where "run_settings n t l u d s w1 = (Inr x, w2)"
      and "(case x of (a, b, c, d, e, f) \<Rightarrow> return (a, b, c, d, e, f, h)) w2
          = (Inr (n', t', l', u', d', s', h'), w')"
      by (rule and_then_elim) simp_all
    then have "run_settings n t l u d s w1 = (Inr (n', t', l', u', d', s'), w')" and "h' = h"
      by (simp_all add: return_def split: prod.splits)
    with menu 2 show ?thesis by (intro settings [of w1]) simp_all
  next
    case 3
    with body have "and_then run_help_menu (\<lambda>_. return (n, t, l, u, d, s, h)) w1
          = (Inr (n', t', l', u', d', s', h'), w')"
      by simp
    then have "(n', t', l', u', d', s', h') = (n, t, l, u, d, s, h)"
      by (rule and_then_elim) (simp_all add: return_def)
    then show ?thesis by (intro other) simp_all
  next
    case 4
    with body have "and_then (run_export_screen h) (\<lambda>_. return (n, t, l, u, d, s, h)) w1
          = (Inr (n', t', l', u', d', s', h'), w')"
      by simp
    then have "(n', t', l', u', d', s', h') = (n, t, l, u, d, s, h)"
      by (rule and_then_elim) (simp_all add: return_def)
    then show ?thesis by (intro other) simp_all
  next
    case 5
    with body show ?thesis
      by (simp add: exit_program_def raise_def)
  next
    case 6
    with body have "(n', t', l', u', d', s', h') = (n, t, l, u, d, s, h)"
      by (simp add: return_def)
    then show ?thesis by (intro other) simp_all
  qed
qed

subsection \<open>Running the program on a concrete terminal\<close>

text \<open>
  The simplifier runs the program on a concrete world when it leaves the continuation of
  an \<open>and_then\<close> alone until the first action has been evaluated.
\<close>

lemma and_then_weak: "and_then m f w = and_then m f w"
  by (rule refl)

lemma generate_password_no_flags:
  "1 \<le> n \<Longrightarrow> generate_password n False False False False w =
     (Inl IndexError, w\<lparr>draws := Suc (draws w)\<rparr>)"
proof -
  assume "1 \<le> n"
  then obtain k where k: "nat n = Suc k" by (cases "nat n") auto
  show ?thesis
    by (simp add: generate_password_pool k and_then_def random_def raise_def enabled_pool_def)
qed

lemmas run_simps =
  main_def main_loop.simps main_body_def run_main_menu_def run_settings.simps
  do_character_types.simps do_set_length_def run_generate_screen.simps run_login_screen.simps
  show_welcome_def attempt_login_def post_def show_settings_required_message_def
  run_export_screen_def export_saved_passwords_def get_def run_help_menu.simps
  show_quickstart_help_def show_length_help_def show_character_types_help_def
  save_generated_password_def and_then_def prints_def print_def print_val_def input_def
  return_def raise_def exit_program_def Let_def format_settings_line_def str_def
  max_str_digits_def terminal_def accepting_def zeros_def

subsection \<open>The configured length\<close>

definition length_ok :: "int option \<Rightarrow> bool" where
  "length_ok n = (case n of None \<Rightarrow> True | Some k \<Rightarrow> 5 \<le> k \<and> k \<le> 100)"

lemma do_set_length_length_ok:
  assumes "do_set_length current w = (Inr n', w')" and "length_ok current"
  shows "length_ok n'"
  using assms unfolding do_set_length_def Let_def
  by (auto simp: return_def raise_def length_ok_def elim!: and_then_elim split: if_splits)

lemma run_settings_length_ok:
  "run_settings n t l u d s w = (Inr (n', t', l', u', d', s'), w') \<Longrightarrow> length_ok n
     \<Longrightarrow> length_ok n'"
proof (induction "length (stdin w)" arbitrary: n t l u d s w rule: less_induct)
  case less
  show ?case using less.prems
    apply (subst (asm) run_settings.simps)
    apply (erule and_then_elim)
     apply simp
    apply (erule and_then_elim)
     apply simp
    apply (drule prints_stdin, drule input_stdin_less)
    apply (auto split: if_splits prod.splits simp: Let_def return_def exit_program_def raise_def
        elim!: and_then_elim)
    subgoal for w1 xa w1a x w1b
      using less.hyps [of w1b x t l u d s] do_set_length_length_ok [of n w1a x w1b]
        reads_onlyD [OF reads_only_do_set_length, of n w1a "Inr x" w1b]
      by simp
    subgoal for w1 xa w1a a aa ab b w1b
      using less.hyps [of w1b n True a aa ab b]
        reads_onlyD [OF reads_only_do_character_types, of l u d s w1a "Inr (a, aa, ab, b)" w1b]
      by simp
    subgoal for w1 xa w1a
      using less.hyps [of w1a n t l u d s] by simp
    done
qed

lemma main_body_length_ok:
  assumes "main_body n t l u d s h w = (Inr (n', t', l', u', d', s', h'), w')"
    and "length_ok n"
  shows "length_ok n'"
  using assms(1)
proof (cases rule: main_body_cases)
  case (settings w1)
  from run_settings_length_ok [OF settings(2) assms(2)] show ?thesis .
qed (use assms(2) in simp_all)

lemma reachable_length_ok:
  "reachable w0 ((n, t, l, u, d, s, h), w) \<Longrightarrow> length_ok n"
proof (induction "((n, t, l, u, d, s, h), w)" arbitrary: n t l u d s h w rule: reachable.induct)
  case (start w1 w2)
  show ?case by (simp add: length_ok_def)
next
  case (step n0 t0 l0 u0 d0 s0 h0 w1 w')
  then show ?case by (auto dest: main_body_length_ok)
qed

text \<open>
  C8. In every state a session reaches, the configured length is unset or a number from 5
  to 100 (\<open>length_ok\<close>); and the operations that can change it (\<open>do_set_length\<close>, the
  settings menu, a pass of the main loop) return a length of that kind when they start
  from one.
\<close>

theorem configured_length_in_range:
  "(reachable w0 ((n, t, l, u, d, s, h), w) \<longrightarrow>
      n = None \<or> (\<exists>k. n = Some k \<and> 5 \<le> k \<and> k \<le> 100)) \<and>
   (length_ok n \<longrightarrow> (\<forall>n' w'. do_set_length n w = (Inr n', w') \<longrightarrow> length_ok n')) \<and>
   (length_ok n \<longrightarrow>
      (\<forall>n' t' l' u' d' s' w'.
         run_settings n t l u d s w = (Inr (n', t', l', u', d', s'), w') \<longrightarrow> length_ok n')) \<and>
   (length_ok n \<longrightarrow>
      (\<forall>n' t' l' u' d' s' h' w'.
         main_body n t l u d s h w = (Inr (n', t', l', u', d', s', h'), w') \<longrightarrow>
         length_ok n'))"
proof (intro conjI impI allI)
  assume "reachable w0 ((n, t, l, u, d, s, h), w)"
  from reachable_length_ok [OF this] show "n = None \<or> (\<exists>k. n = Some k \<and> 5 \<le> k \<and> k \<le> 100)"
    by (cases n) (simp_all add: length_ok_def)
next
  fix n' w'
  assume "length_ok n" and "do_set_length n w = (Inr n', w')"
  then show "length_ok n'" by (rule do_set_length_length_ok [rotated])
next
  fix n' t' l' u' d' s' w'
  assume "length_ok n" and "run_settings n t l u d s w = (Inr (n', t', l', u', d', s'), w')"
  then show "length_ok n'" by (rule run_settings_length_ok [rotated])
next
  fix n' t' l' u' d' s' h' w'
  assume "length_ok n"
    and "main_body n t l u d s h w = (Inr (n', t', l', u', d', s', h'), w')"
  then show "length_ok n'" by (rule main_body_length_ok [rotated])
qed

theorem configured_length_in_range_witness:
  "\<exists>w. reachable (terminal ['''', ''ann'', ''pw'', ''2'', ''1'', ''12'', ''3''])
          ((Some 12, False, True, True, True, False, []), w) \<and>
        (\<exists>k. Some (12::int) = Some k \<and> 5 \<le> k \<and> k \<le> 100)"
proof -
  let ?start = "terminal ['''', ''ann'', ''pw'', ''2'', ''1'', ''12'', ''3'']"
  let ?greeted = "snd (show_welcome ?start)"
  let ?logged = "snd (run_login_screen ?greeted)"
  let ?set = "snd (main_body None False True True True False [] ?logged)"
  have "show_welcome ?start = (Inr (), ?greeted)"
    by (simp add: run_simps cong: and_then_weak)
  moreover have "run_login_screen ?greeted = (Inr True, ?logged)"
    by (simp add: run_simps str_eval cong: and_then_weak)
  ultimately have r0: "reachable ?start ((None, False, True, True, True, False, []), ?logged)"
    by (rule reachable.start)
  have "main_body None False True True True False [] ?logged =
      (Inr (Some 12, False, True, True, True, False, []), ?set)"
    by (simp add: run_simps str_eval cong: and_then_weak)
  with r0 have r1: "reachable ?start ((Some 12, False, True, True, True, False, []), ?set)"
    by (rule reachable.step)
  from configured_length_in_range [of ?start "Some 12" False True True True False "[]" ?set]
    r1
  show ?thesis by blast
qed

subsection \<open>The history\<close>

text \<open>Printing and reading leave the random number generator alone.\<close>

lemma prints_rng: "prints ss w = (r, w') \<Longrightarrow> entropy w' = entropy w \<and> draws w' = draws w"
  by (auto simp: prints_def)

lemma print_rng: "print x w = (r, w') \<Longrightarrow> entropy w' = entropy w \<and> draws w' = draws w"
  by (auto simp: print_def)

lemma input_rng: "input p w = (r, w') \<Longrightarrow> entropy w' = entropy w \<and> draws w' = draws w"
  by (auto simp: input_def split: list.splits)

text \<open>
  The password of the \<open>k\<close>-th generation (counted from 0) of a generate screen entered in
  the world \<open>w\<close>: each generation uses the next \<open>length\<close> numbers of the random stream.
\<close>

definition generated :: "int \<Rightarrow> bool \<Rightarrow> bool \<Rightarrow> bool \<Rightarrow> bool \<Rightarrow> world \<Rightarrow> nat \<Rightarrow> string" where
  "generated n l u d s w k =
     map (pick (enabled_pool l u d s) (entropy w))
       [draws w + k * nat n ..< draws w + Suc k * nat n]"

lemma generate_password_generated:
  assumes "generate_password n l u d s w1 = (Inr pwd, w2)"
    and "entropy w1 = entropy w" and "draws w1 = draws w + k * nat n"
  shows "pwd = generated n l u d s w k \<and> entropy w2 = entropy w \<and>
     draws w2 = draws w + Suc k * nat n"
proof (cases "enabled_pool l u d s = []")
  case True
  show ?thesis
  proof (cases "nat n")
    case 0
    with True assms show ?thesis
      by (auto simp: generate_password_pool and_then_def return_def generated_def)
  next
    case (Suc j)
    with True assms(1) show ?thesis
      by (simp add: generate_password_pool and_then_def random_def raise_def)
  qed
next
  case False
  with assms show ?thesis
    by (auto simp: generate_password_pool and_then_def return_def
        choices_nonempty [OF _ enabled_pool_length] generated_def ac_simps)
qed

lemma run_generate_screen_history:
  "run_generate_screen n t l u d s h w = (Inr h', w') \<Longrightarrow>
     \<exists>m>0. h' = h @ map (\<lambda>k. \<lparr>password = generated n l u d s w k, length' = n,
                 lowercase = l, uppercase = u, numbers = d, symbols = s\<rparr>) [0..<m] \<and>
       entropy w' = entropy w \<and> draws w' = draws w + m * nat n \<and>
       length (stdin w) = length (stdin w') + m"
proof (induction "length (stdin w)" arbitrary: h w rule: less_induct)
  case less
  show ?case using less.prems
    apply (subst (asm) run_generate_screen.simps)
    apply (erule and_then_elim, simp)
    apply (erule and_then_elim, simp)
    apply (erule and_then_elim, simp)
    apply (simp only: Let_def)
    apply (erule and_then_elim, simp)
    apply (erule and_then_elim, simp)
    subgoal premises p for x w1 pwd w2 xb w3 xc w4 line w5
    proof -
      let ?rec = "\<lambda>k. \<lparr>password = generated n l u d s w k, length' = n,
                 lowercase = l, uppercase = u, numbers = d, symbols = s\<rparr>"
      let ?h1 = "save_generated_password h pwd n l u d s"
      from prints_rng [OF p(1)] prints_stdin [OF p(1)]
      have a1: "entropy w1 = entropy w" "draws w1 = draws w" "stdin w1 = stdin w"
        by simp_all
      from generate_password_generated [OF p(2), of w 0] a1 generate_password_stdin [OF p(2)]
      have a2: "pwd = generated n l u d s w 0" "entropy w2 = entropy w"
        "draws w2 = draws w + nat n" "stdin w2 = stdin w"
        by simp_all
      from print_rng [OF p(3)] print_stdin [OF p(3)] a2
      have a3: "entropy w3 = entropy w" "draws w3 = draws w + nat n" "stdin w3 = stdin w"
        by simp_all
      from prints_rng [OF p(4)] prints_stdin [OF p(4)] a3
      have a4: "entropy w4 = entropy w" "draws w4 = draws w + nat n" "stdin w4 = stdin w"
        by simp_all
      from input_rng [OF p(5)] input_stdin [OF p(5)] a4
      have a5: "entropy w5 = entropy w" "draws w5 = draws w + nat n"
        "stdin w = line # stdin w5"
        by simp_all
      have h1: "?h1 = h @ [?rec 0]"
        by (simp add: save_generated_password_def a2(1))
      from p(6) consider
        "h' = ?h1" "w' = w5"
        | "run_generate_screen n t l u d s ?h1 w5 = (Inr h', w')"
        by (auto split: if_splits simp: return_def exit_program_def raise_def)
      then show ?thesis
      proof cases
        case 1
        with h1 a5 have "h' = h @ map ?rec [0..<1]" and "entropy w' = entropy w"
          and "draws w' = draws w + 1 * nat n"
          and "length (stdin w) = length (stdin w') + 1"
          by simp_all
        then show ?thesis by (intro exI [of _ 1]) simp
      next
        case 2
        from a5(3) have "length (stdin w5) < length (stdin w)" by simp
        from less.hyps [OF this 2] obtain m where m: "0 < m"
          and h': "h' = ?h1 @ map (\<lambda>k. \<lparr>password = generated n l u d s w5 k, length' = n,
                 lowercase = l, uppercase = u, numbers = d, symbols = s\<rparr>) [0..<m]"
          and e: "entropy w' = entropy w5" and dr: "draws w' = draws w5 + m * nat n"
          and len: "length (stdin w5) = length (stdin w') + m"
          by blast
        have shift: "generated n l u d s w5 k = generated n l u d s w (Suc k)" for k
          by (simp add: generated_def a5 ac_simps)
        from h' h1 have "h' = h @ map ?rec [0..<Suc m]"
          by (simp add: shift map_upt_Suc del: upt_Suc)
        moreover from e a5 have "entropy w' = entropy w" by simp
        moreover from dr a5 have "draws w' = draws w + Suc m * nat n" by simp
        moreover from len a5 have "length (stdin w) = length (stdin w') + Suc m" by simp
        ultimately show ?thesis by (intro exI [of _ "Suc m"]) simp
      qed
    qed
    done
qed

lemma main_body_history:
  assumes "main_body n t l u d s h w = (Inr (n', t', l', u', d', s', h'), w')"
  shows "prefix h h'"
  using assms
proof (cases rule: main_body_cases)
  case (generate w1 k)
  from run_generate_screen_history [OF generate(4)] show ?thesis by auto
qed simp_all

text \<open>
  C5. \<open>save_generated_password\<close> appends exactly one record, built from its arguments, to
  the end of the list. The generate screen, when it returns to the menu after \<open>m\<close>
  generations (it read \<open>m\<close> lines and used \<open>m\<close> times \<open>length\<close> random numbers), has appended
  \<open>m\<close> records to the list it was given: the \<open>k\<close>-th of them holds the \<open>k\<close>-th password
  generated and the length and flags the screen was called with. And a pass of the main
  loop, whatever the menu choice, leaves every record that was in the list where it was:
  the old list is a prefix of the new one.
\<close>

theorem history_grows_by_one_record_per_generation:
  "save_generated_password h p n l u d s =
     h @ [\<lparr>password = p, length' = n, lowercase = l, uppercase = u, numbers = d,
            symbols = s\<rparr>] \<and>
   (\<forall>w1 pwd w2 k. generate_password n l u d s w1 = (Inr pwd, w2) \<longrightarrow>
      entropy w1 = entropy w \<longrightarrow> draws w1 = draws w + k * nat n \<longrightarrow>
      pwd = generated n l u d s w k) \<and>
   (\<forall>h' w'. run_generate_screen n t l u d s h w = (Inr h', w') \<longrightarrow>
      (\<exists>m>0. h' = h @ map (\<lambda>k. \<lparr>password = generated n l u d s w k, length' = n,
                   lowercase = l, uppercase = u, numbers = d, symbols = s\<rparr>) [0..<m] \<and>
         draws w' = draws w + m * nat n \<and>
         length (stdin w) = length (stdin w') + m)) \<and>
   (\<forall>n' t' l' u' d' s' h' w'.
      main_body (Some n) t l u d s h w = (Inr (n', t', l', u', d', s', h'), w') \<longrightarrow>
      prefix h h')"
proof (intro conjI allI impI)
  show "save_generated_password h p n l u d s =
     h @ [\<lparr>password = p, length' = n, lowercase = l, uppercase = u, numbers = d,
            symbols = s\<rparr>]"
    by (simp add: save_generated_password_def)
next
  fix w1 pwd w2 k
  assume "generate_password n l u d s w1 = (Inr pwd, w2)" and "entropy w1 = entropy w"
    and "draws w1 = draws w + k * nat n"
  from generate_password_generated [OF this] show "pwd = generated n l u d s w k" by simp
next
  fix h' w'
  assume "run_generate_screen n t l u d s h w = (Inr h', w')"
  from run_generate_screen_history [OF this]
  show "\<exists>m>0. h' = h @ map (\<lambda>k. \<lparr>password = generated n l u d s w k, length' = n,
                   lowercase = l, uppercase = u, numbers = d, symbols = s\<rparr>) [0..<m] \<and>
         draws w' = draws w + m * nat n \<and>
         length (stdin w) = length (stdin w') + m"
    by blast
next
  fix n' t' l' u' d' s' h' w'
  assume "main_body (Some n) t l u d s h w = (Inr (n', t', l', u', d', s', h'), w')"
  then show "prefix h h'" by (rule main_body_history)
qed

theorem history_grows_by_one_record_per_generation_witness:
  "\<exists>h' w'. run_generate_screen 5 True True False False False [] (terminal [''1'', ''2''])
       = (Inr h', w') \<and>
     h' = map (\<lambda>k. \<lparr>password = generated 5 True False False False (terminal [''1'', ''2'']) k,
              length' = 5, lowercase = True, uppercase = False, numbers = False,
              symbols = False\<rparr>) [0..<2]"
proof -
  let ?w = "terminal [''1'', ''2'']"
  have "\<exists>h' w'. run_generate_screen 5 True True False False False [] ?w = (Inr h', w') \<and>
      stdin w' = []"
    by (simp add: run_simps generate_password_nonempty str_eval cong: and_then_weak)
  then obtain h' w' where run: "run_generate_screen 5 True True False False False [] ?w
      = (Inr h', w')" and finished: "stdin w' = []"
    by blast
  from history_grows_by_one_record_per_generation
    [of "[]" "''''" 5 True False False False ?w True, THEN conjunct2, THEN conjunct2,
      THEN conjunct1, rule_format, OF run]
  obtain m where "h' = [] @ map (\<lambda>k. \<lparr>password = generated 5 True False False False ?w k,
              length' = 5, lowercase = True, uppercase = False, numbers = False,
              symbols = False\<rparr>) [0..<m]"
    and count: "length (stdin ?w) = length (stdin w') + m"
    by blast
  moreover from count finished have "m = 2"
    by (simp add: terminal_def)
  ultimately have "h' = map (\<lambda>k. \<lparr>password = generated 5 True False False False ?w k,
              length' = 5, lowercase = True, uppercase = False, numbers = False,
              symbols = False\<rparr>) [0..<2]"
    by simp
  with run show ?thesis by blast
qed

subsection \<open>Generating with every character type switched off\<close>

text \<open>
  A session: Enter at the welcome screen, a login, the settings menu, there the character
  types screen with the three flags that are on by default toggled off and saved, then the
  length 12, back to the main menu, and the choice 1 (generate).
\<close>

definition all_flags_off :: "string list" where
  "all_flags_off =
     ['''', ''ann'', ''pw'', ''2'', ''2'', ''1'', ''2'', ''3'', ''5'', ''1'', ''12'', ''3'',
      ''1'']"

text \<open>The world of this session when it is back at the main menu.\<close>

definition configured_world :: world where
  "configured_world =
     snd (main_body None False True True True False []
       (snd (run_login_screen (snd (show_welcome (terminal all_flags_off))))))"

lemma all_flags_off_reachable:
  "reachable (terminal all_flags_off)
     ((Some 12, True, False, False, False, False, []), configured_world)"
proof -
  let ?start = "terminal all_flags_off"
  let ?greeted = "snd (show_welcome ?start)"
  let ?logged = "snd (run_login_screen ?greeted)"
  have "show_welcome ?start = (Inr (), ?greeted)"
    by (simp add: run_simps all_flags_off_def cong: and_then_weak)
  moreover have "run_login_screen ?greeted = (Inr True, ?logged)"
    by (simp add: run_simps all_flags_off_def str_eval cong: and_then_weak)
  ultimately have "reachable ?start ((None, False, True, True, True, False, []), ?logged)"
    by (rule reachable.start)
  moreover have "main_body None False True True True False [] ?logged =
      (Inr (Some 12, True, False, False, False, False, []), configured_world)"
    unfolding configured_world_def
    by (simp add: run_simps all_flags_off_def str_eval cong: and_then_weak)
  ultimately show ?thesis
    by (rule reachable.step)
qed

lemma configured_world_stdin: "stdin configured_world = [''1'']"
  unfolding configured_world_def
  by (simp add: run_simps all_flags_off_def str_eval cong: and_then_weak)


lemma all_flags_off_crash:
  "fst (main_body (Some 12) True False False False False [] configured_world) = Inl IndexError"
  by (simp add: run_simps configured_world_stdin generate_password_no_flags str_eval
        cong: and_then_weak)



text \<open>
  C4 fails on the code, by the same defect: the session above ends with an \<open>IndexError\<close>
  that nothing handles, so the process ends with the exit status 1.
\<close>

theorem main_ends_with_index_error:
  "fst (main (terminal all_flags_off)) = Inl IndexError \<and>
   exit_status (fst (main (terminal all_flags_off))) = 1"
proof -
  obtain w' where crash:
    "main_body (Some 12) True False False False False [] configured_world
       = (Inl IndexError, w')"
    using all_flags_off_crash
    by (cases "main_body (Some 12) True False False False False [] configured_world") simp
  have "main (terminal all_flags_off)
      = main_loop (Some 12) True False False False False [] configured_world"
    using reachable_main [OF all_flags_off_reachable] by simp
  also have "\<dots> = (Inl IndexError, w')"
    by (subst main_loop.simps) (simp add: and_then_def crash)
  finally show ?thesis by (simp add: exit_status_def)
qed

theorem main_ends_with_index_error_witness:
  "exit_status (fst (main (terminal all_flags_off))) \<noteq> 0"
  using main_ends_with_index_error by (simp add: exit_status_def)

end
